theory Spec2Isabelle
  imports Complex_Main
begin

section \<open>JSON payloads and the Python library\<close>

text \<open>
  Request bodies are JSON objects. A body is modelled as a finite map from keys to
  JSON scalars; nested objects and non-integral numbers are not represented, and arrays
  only in the body of the schedule optimizer, which iterates over one.
  The handlers in \<^verbatim>\<open>src/app/routes.py\<close> use three operations of Python on such
  values: truthiness (\<^verbatim>\<open>if v\<close>, \<^verbatim>\<open>a or b\<close>), \<^verbatim>\<open>str(v)\<close> and
  \<^verbatim>\<open>int(v)\<close>.
\<close>

datatype jval = JNull | JBool bool | JInt int | JStr string

fun truthy :: "jval \<Rightarrow> bool" where
  "truthy JNull = False"
| "truthy (JBool b) = b"
| "truthy (JInt n) = (n \<noteq> 0)"
| "truthy (JStr s) = (s \<noteq> [])"

definition digit_char :: "nat \<Rightarrow> char" where
  "digit_char n = ''0123456789'' ! n"

fun str_nat :: "nat \<Rightarrow> string" where
  "str_nat n = (if n < 10 then [digit_char n] else str_nat (n div 10) @ [digit_char (n mod 10)])"

declare str_nat.simps [simp del]

definition str_int :: "int \<Rightarrow> string" where
  "str_int i = (if i < 0 then CHR ''-'' # str_nat (nat (- i)) else str_nat (nat i))"

fun py_str :: "jval \<Rightarrow> string" where
  "py_str JNull = ''None''"
| "py_str (JBool b) = (if b then ''True'' else ''False'')"
| "py_str (JInt i) = str_int i"
| "py_str (JStr s) = s"

text \<open>
  Naive datetimes are counted in microseconds, dates in days (the proleptic Gregorian
  ordinal of Python's \<^verbatim>\<open>date.toordinal\<close>); a datetime \<open>t\<close> lies on the date
  \<open>t div 86400000000\<close>.
\<close>

type_synonym datetime = int
type_synonym date = int

definition us_per_minute :: int where
  "us_per_minute = 60000000"

definition us_per_day :: int where
  "us_per_day = 86400000000"

definition date_of :: "datetime \<Rightarrow> date" where
  "date_of t = t div us_per_day"

text \<open>
  Library functions whose behaviour on text is fixed by CPython, not by this repository,
  are parameters of the model: \<^verbatim>\<open>str.lower\<close>, \<^verbatim>\<open>int\<close> on a string and
  \<^verbatim>\<open>datetime.fromisoformat\<close> (each of the last two is \<open>None\<close> where Python raises
  \<^verbatim>\<open>ValueError\<close>), and the text of the \<^verbatim>\<open>ValueError\<close> that
  \<^verbatim>\<open>fromisoformat\<close> raises, which the handlers copy into their answers. A parsed
  datetime is naive: strings that carry a UTC offset are not represented. Every theorem
  below holds for every such library.
\<close>

record pylib =
  str_lower :: "string \<Rightarrow> string"
  int_of_str :: "string \<Rightarrow> int option"
  fromisoformat :: "string \<Rightarrow> datetime option"
  isoformat_error :: "string \<Rightarrow> string"

datatype exn =
  TypeError | ValueError | OverflowError | IntegrityError | KeyError | AttributeError

text \<open>
  A request ends in \<^verbatim>\<open>abort(code, description)\<close> or in an exception that no handler
  catches (which Flask answers with status 500).
\<close>

datatype error = Abort nat string | Uncaught exn

fun py_int :: "pylib \<Rightarrow> jval \<Rightarrow> exn + int" where
  "py_int P JNull = Inl TypeError"
| "py_int P (JBool b) = Inr (if b then 1 else 0)"
| "py_int P (JInt i) = Inr i"
| "py_int P (JStr s) = (case int_of_str P s of None \<Rightarrow> Inl ValueError | Some i \<Rightarrow> Inr i)"

definition get_truthy :: "(string \<rightharpoonup> jval) \<Rightarrow> string \<Rightarrow> jval option" where
  \<comment> \<open>\<^verbatim>\<open>data.get(k)\<close> when it is truthy\<close>
  "get_truthy data k = (case data k of None \<Rightarrow> None | Some v \<Rightarrow> if truthy v then Some v else None)"

section \<open>Entities (\<^verbatim>\<open>src/app/models.py\<close>)\<close>

text \<open>
  Only the columns the modelled handlers read or write are kept; the
  \<^verbatim>\<open>created_at\<close>/\<^verbatim>\<open>updated_at\<close> columns of tickets and incidents are left out.
  Columns assigned straight from the payload hold the JSON value given.
\<close>

record client =
  c_id :: int
  c_name :: string
  c_updated_at :: datetime

record ticket =
  t_id :: int
  t_client_id :: int
  t_subject :: string
  t_description :: jval
  t_priority :: string
  t_status :: string
  t_assigned_to :: jval
  t_due_date :: "date option"

record incident =
  i_id :: int
  i_client_id :: int
  i_source :: string
  i_external_id :: string
  i_severity :: string
  i_message :: jval
  i_status :: string
  i_occurred_at :: datetime
  i_ticket_id :: "int option"

record appointment =
  a_id :: int
  a_client_id :: int
  a_start_time :: datetime
  a_duration_minutes :: int
  a_status :: string
  a_assigned_to :: "string option"

record task =
  k_status :: string
  k_due_date :: "date option"
  k_assigned_to :: "string option"

record store =
  clients :: "client list"
  tickets :: "ticket list"
  incidents :: "incident list"
  appointments :: "appointment list"

definition next_id :: "int list \<Rightarrow> int" where
  \<comment> \<open>the integer primary key SQLite gives a new row: one more than the largest in use\<close>
  "next_id ids = (case ids of [] \<Rightarrow> 1 | i # js \<Rightarrow> fold max js i + 1)"

section \<open>Severity escalation (\<^verbatim>\<open>routes.py\<close>, lines 36-43 and 216)\<close>

definition SEVERITY_PRIORITY_MAP :: "(string \<times> string) list" where
  "SEVERITY_PRIORITY_MAP =
     [(''disaster'', ''high''),
      (''high'', ''high''),
      (''average'', ''normal''),
      (''warning'', ''normal''),
      (''information'', ''low''),
      (''not_classified'', ''low'')]"

definition priority_for :: "string \<Rightarrow> string" where
  \<comment> \<open>\<^verbatim>\<open>SEVERITY_PRIORITY_MAP.get(severity, "normal")\<close>\<close>
  "priority_for severity =
     (case map_of SEVERITY_PRIORITY_MAP severity of None \<Rightarrow> ''normal'' | Some p \<Rightarrow> p)"

section \<open>Incident ingestion (\<^verbatim>\<open>ingest_zabbix_event\<close>, lines 202-266)\<close>

definition find_incident :: "store \<Rightarrow> string \<Rightarrow> incident option" where
  \<comment> \<open>\<^verbatim>\<open>MonitoringIncident.query.filter_by(source="zabbix", external_id=key).first()\<close>\<close>
  "find_incident s key =
     find (\<lambda>i. i_source i = ''zabbix'' \<and> i_external_id i = key) (incidents s)"

definition linked_ticket :: "store \<Rightarrow> incident \<Rightarrow> ticket option" where
  \<comment> \<open>the relationship \<^verbatim>\<open>incident.ticket\<close>\<close>
  "linked_ticket s inc =
     (case i_ticket_id inc of None \<Rightarrow> None
      | Some k \<Rightarrow> find (\<lambda>t. t_id t = k) (tickets s))"

definition resolve_linked :: "incident \<Rightarrow> ticket list \<Rightarrow> ticket list" where
  \<comment> \<open>\<^verbatim>\<open>existing.ticket.status = "resolved"\<close>\<close>
  "resolve_linked inc ts =
     map (\<lambda>t. if i_ticket_id inc = Some (t_id t) then t\<lparr>t_status := ''resolved''\<rparr> else t) ts"

definition ingest_update ::
  "pylib \<Rightarrow> store \<Rightarrow> incident \<Rightarrow> (string \<rightharpoonup> jval) \<Rightarrow> string \<Rightarrow> jval
     \<Rightarrow> error + (store \<times> incident \<times> nat)" where
  \<comment> \<open>lines 221-230: the branch \<^verbatim>\<open>if existing:\<close>; the commit fails on a null message
      (\<^verbatim>\<open>nullable=False\<close>)\<close>
  "ingest_update P s existing data severity message =
     (let (st, ts) =
            (case get_truthy data ''status'' of
               None \<Rightarrow> (i_status existing, tickets s)
             | Some v \<Rightarrow>
                 (let new_status = str_lower P (py_str v) in
                  (new_status,
                   if linked_ticket s existing \<noteq> None
                      \<and> (new_status = ''resolved'' \<or> new_status = ''ok'')
                   then resolve_linked existing (tickets s) else tickets s)));
          existing' = existing\<lparr>i_status := st, i_severity := severity, i_message := message\<rparr>
      in if message = JNull then Inl (Uncaught IntegrityError)
         else Inr (s\<lparr>tickets := ts,
                     incidents := map (\<lambda>i. if i_id i = i_id existing then existing' else i)
                                      (incidents s)\<rparr>,
                   existing', 200))"

definition new_ticket ::
  "datetime \<Rightarrow> store \<Rightarrow> client \<Rightarrow> (string \<rightharpoonup> jval) \<Rightarrow> jval \<Rightarrow> string \<Rightarrow> jval \<Rightarrow> ticket" where
  \<comment> \<open>lines 232-244\<close>
  "new_ticket now s cl data event_id priority message =
     (let ticket_subject =
            (case get_truthy data ''problem'' of
               Some p \<Rightarrow> py_str p
             | None \<Rightarrow> ''Zabbix incident '' @ py_str event_id)
      in \<lparr>t_id = next_id (map t_id (tickets s)),
          t_client_id = c_id cl,
          t_subject = ''[Zabbix] '' @ ticket_subject,
          t_description = message,
          t_priority = priority,
          t_status = ''open'',
          t_assigned_to =
            (case get_truthy data ''assigned_to'' of
               Some a \<Rightarrow> a | None \<Rightarrow> JStr ''Monitoring''),
          t_due_date = (if priority = ''high'' then Some (date_of now + 1) else None)\<rparr>)"

definition parse_occurred_at :: "pylib \<Rightarrow> datetime \<Rightarrow> (string \<rightharpoonup> jval) \<Rightarrow> error + datetime" where
  \<comment> \<open>lines 246-251; \<^verbatim>\<open>fromisoformat\<close> raises \<^verbatim>\<open>TypeError\<close> on a value that is not a string\<close>
  "parse_occurred_at P now data =
     (case get_truthy data ''occurred_at'' of
        None \<Rightarrow> Inr now
      | Some (JStr x) \<Rightarrow>
          (case fromisoformat P x of
             None \<Rightarrow> Inl (Abort 400 (''Invalid occurred_at: '' @ isoformat_error P x))
           | Some t \<Rightarrow> Inr t)
      | Some _ \<Rightarrow> Inl (Uncaught TypeError))"

definition new_incident ::
  "pylib \<Rightarrow> store \<Rightarrow> client \<Rightarrow> (string \<rightharpoonup> jval) \<Rightarrow> jval \<Rightarrow> string \<Rightarrow> jval \<Rightarrow> datetime \<Rightarrow> ticket
     \<Rightarrow> incident" where
  \<comment> \<open>lines 253-263\<close>
  "new_incident P s cl data event_id severity message occurred_at tk =
     \<lparr>i_id = next_id (map i_id (incidents s)),
      i_client_id = c_id cl,
      i_source = ''zabbix'',
      i_external_id = py_str event_id,
      i_severity = severity,
      i_message = message,
      i_status = str_lower P (case data ''status'' of None \<Rightarrow> ''open'' | Some v \<Rightarrow> py_str v),
      i_occurred_at = occurred_at,
      i_ticket_id = Some (t_id tk)\<rparr>"

definition ingest_create ::
  "pylib \<Rightarrow> datetime \<Rightarrow> store \<Rightarrow> client \<Rightarrow> (string \<rightharpoonup> jval) \<Rightarrow> jval \<Rightarrow> string \<Rightarrow> string
     \<Rightarrow> jval \<Rightarrow> error + (store \<times> incident \<times> nat)" where
  \<comment> \<open>lines 232-266: no incident has the key; ticket and incident are committed together,
      and the commit fails on a null message (\<^verbatim>\<open>nullable=False\<close>)\<close>
  "ingest_create P now s cl data event_id severity priority message =
     (let tk = new_ticket now s cl data event_id priority message
      in case parse_occurred_at P now data of
           Inl e \<Rightarrow> Inl e
         | Inr occurred_at \<Rightarrow>
             (let inc = new_incident P s cl data event_id severity message occurred_at tk
              in if message = JNull then Inl (Uncaught IntegrityError)
                 else Inr (s\<lparr>tickets := tickets s @ [tk], incidents := incidents s @ [inc]\<rparr>,
                           inc, 201)))"

definition ingest_zabbix_event ::
  "pylib \<Rightarrow> datetime \<Rightarrow> store \<Rightarrow> (string \<rightharpoonup> jval) \<Rightarrow> error + (store \<times> incident \<times> nat)" where
  "ingest_zabbix_event P now s data =
     (case (data ''event_id'', data ''client_id'', data ''severity'', data ''message'') of
        (Some event_id, Some raw_client_id, Some raw_severity, Some message) \<Rightarrow>
          (case py_int P raw_client_id of
             Inl _ \<Rightarrow> Inl (Abort 400 ''Invalid client id'')
           | Inr client_id \<Rightarrow>
               (case find (\<lambda>c. c_id c = client_id) (clients s) of
                  None \<Rightarrow> Inl (Abort 404 ''Not Found'')
                | Some cl \<Rightarrow>
                    (let severity = str_lower P (py_str raw_severity);
                         priority = priority_for severity
                     in case find_incident s (py_str event_id) of
                          Some existing \<Rightarrow> ingest_update P s existing data severity message
                        | None \<Rightarrow>
                            ingest_create P now s cl data event_id severity priority message)))
      | _ \<Rightarrow> Inl (Abort 400 ''Missing required Zabbix event fields''))"

section \<open>Schedule optimizer (\<^verbatim>\<open>optimise_schedule\<close>, lines 1049-1133)\<close>

text \<open>
  Python's \<^verbatim>\<open>timedelta\<close> holds at most 999999999 days in either direction and a
  \<^verbatim>\<open>datetime\<close> lies between the ordinals 1 and 3652059 (years 1 to 9999); building a
  value outside raises \<^verbatim>\<open>OverflowError\<close>.
\<close>

definition timedelta_minutes :: "int \<Rightarrow> exn + int" where
  \<comment> \<open>\<^verbatim>\<open>timedelta(minutes=m)\<close>, in microseconds\<close>
  "timedelta_minutes m =
     (let us = m * us_per_minute
      in if - 999999999 * us_per_day \<le> us \<and> us < 1000000000 * us_per_day
         then Inr us else Inl OverflowError)"

definition dt_add :: "datetime \<Rightarrow> int \<Rightarrow> exn + datetime" where
  \<comment> \<open>\<^verbatim>\<open>datetime + timedelta\<close>\<close>
  "dt_add t us =
     (let r = t + us
      in if 1 \<le> date_of r \<and> date_of r \<le> 3652059 then Inr r else Inl OverflowError)"

definition add_minutes :: "datetime \<Rightarrow> int \<Rightarrow> exn + datetime" where
  \<comment> \<open>\<^verbatim>\<open>t + timedelta(minutes=m)\<close>\<close>
  "add_minutes t m = (case timedelta_minutes m of Inl e \<Rightarrow> Inl e | Inr us \<Rightarrow> dt_add t us)"

definition at_nine :: "date \<Rightarrow> datetime" where
  \<comment> \<open>\<^verbatim>\<open>datetime.combine(target_date, time(hour=9, minute=0))\<close>\<close>
  "at_nine d = d * us_per_day + 9 * 60 * us_per_minute"

text \<open>
  \<^verbatim>\<open>engineer_slots\<close> is a dictionary that is iterated: an association list in
  insertion order, where assigning to a key that is present keeps its position.
\<close>

type_synonym slots = "(string \<times> datetime) list"

fun slot_set :: "slots \<Rightarrow> string \<Rightarrow> datetime \<Rightarrow> slots" where
  "slot_set [] k v = [(k, v)]"
| "slot_set ((k', v') # rest) k v =
     (if k' = k then (k, v) # rest else (k', v') # slot_set rest k v)"

fun min_slot :: "string \<times> datetime \<Rightarrow> slots \<Rightarrow> string" where
  \<comment> \<open>\<^verbatim>\<open>min(engineer_slots, key=engineer_slots.get)\<close>: the first key with the least value\<close>
  "min_slot best [] = fst best"
| "min_slot best (x # xs) = min_slot (if snd x < snd best then x else best) xs"

record suggestion =
  sg_appointment_id :: int
  sg_client :: "string option"
  sg_assigned_engineer :: "string option"
  sg_recommended_engineer :: string
  sg_current_start :: datetime
  sg_optimized_start :: datetime
  sg_optimized_end :: datetime
  sg_travel_buffer_minutes :: int
  sg_notes :: "string option"

record opt_state =
  engineer_slots :: slots
  reassigned :: nat
  suggestions :: "suggestion list"

definition pick_engineer :: "datetime \<Rightarrow> opt_state \<Rightarrow> appointment \<Rightarrow> string \<times> slots \<times> nat" where
  \<comment> \<open>lines 1088-1098: the engineer of the visit, the slots and the reassignment count\<close>
  "pick_engineer day_start st a =
     (case (case a_assigned_to a of None \<Rightarrow> None
            | Some e \<Rightarrow> if e = [] then None else Some e) of
        Some e \<Rightarrow>
          (e,
           if e \<in> set (map fst (engineer_slots st)) then engineer_slots st
           else engineer_slots st @ [(e, day_start)],
           reassigned st)
      | None \<Rightarrow>
          (case engineer_slots st of
             [] \<Rightarrow> (''Unassigned'', [(''Unassigned'', day_start)], reassigned st + 1)
           | x # xs \<Rightarrow> (min_slot x xs, engineer_slots st, reassigned st + 1)))"

definition schedule_step ::
  "client list \<Rightarrow> datetime \<Rightarrow> datetime \<Rightarrow> int \<Rightarrow> opt_state \<Rightarrow> appointment \<Rightarrow> exn + opt_state" where
  \<comment> \<open>lines 1088-1123: one pass of the loop body\<close>
  "schedule_step cls day_start day_end travel_buffer st a =
     (case pick_engineer day_start st a of
        (engineer, slots1, reassigned1) \<Rightarrow>
          (case map_of slots1 engineer of
             None \<Rightarrow> Inl KeyError
           | Some free \<Rightarrow>
               (let suggested_start = max (a_start_time a) free;
                    reason = (if suggested_start > a_start_time a
                              then Some ''Resolved overlap with preceding visit'' else None)
                in case add_minutes suggested_start (a_duration_minutes a) of
                     Inl e \<Rightarrow> Inl e
                   | Inr suggested_end \<Rightarrow>
                       (case add_minutes suggested_end travel_buffer of
                          Inl e \<Rightarrow> Inl e
                        | Inr next_free \<Rightarrow>
                            Inr \<lparr>engineer_slots = slot_set slots1 engineer next_free,
                                 reassigned = reassigned1,
                                 suggestions = suggestions st @
                                   [\<lparr>sg_appointment_id = a_id a,
                                     sg_client = map_option c_name
                                       (find (\<lambda>c. c_id c = a_client_id a) cls),
                                     sg_assigned_engineer = a_assigned_to a,
                                     sg_recommended_engineer = engineer,
                                     sg_current_start = a_start_time a,
                                     sg_optimized_start = suggested_start,
                                     sg_optimized_end = suggested_end,
                                     sg_travel_buffer_minutes = travel_buffer,
                                     sg_notes =
                                       (if next_free > day_end
                                        then Some ''Extends beyond workday; consider another engineer''
                                        else reason)\<rparr>]\<rparr>))))"

fun schedule_loop ::
  "client list \<Rightarrow> datetime \<Rightarrow> datetime \<Rightarrow> int \<Rightarrow> opt_state \<Rightarrow> appointment list \<Rightarrow> exn + opt_state" where
  "schedule_loop cls day_start day_end travel_buffer st [] = Inr st"
| "schedule_loop cls day_start day_end travel_buffer st (a # rest) =
     (case schedule_step cls day_start day_end travel_buffer st a of
        Inl e \<Rightarrow> Inl e
      | Inr st' \<Rightarrow> schedule_loop cls day_start day_end travel_buffer st' rest)"

definition day_appointments :: "store \<Rightarrow> date \<Rightarrow> appointment list" where
  \<comment> \<open>lines 1071-1082: the scheduled visits that start on the target date, by ascending
      start; visits with equal starts stay in table order\<close>
  "day_appointments s d =
     sort_key a_start_time
       (filter (\<lambda>a. a_status a = ''scheduled''
                    \<and> d * us_per_day \<le> a_start_time a
                    \<and> a_start_time a \<le> d * us_per_day + (us_per_day - 1))
               (appointments s))"

text \<open>
  The body of an optimizer request: the value under a key is a scalar or an array of
  scalars. The handler converts \<^verbatim>\<open>travel_buffer_minutes\<close> and
  \<^verbatim>\<open>workday_minutes\<close> with \<^verbatim>\<open>int\<close>, tests the value under
  \<^verbatim>\<open>engineers\<close> for truth and iterates over it: an array yields its elements, a
  string its characters, and any other value raises \<^verbatim>\<open>TypeError\<close>.
\<close>

datatype jfield = Scalar jval | Array "jval list"

fun truthy_field :: "jfield \<Rightarrow> bool" where
  "truthy_field (Scalar v) = truthy v"
| "truthy_field (Array xs) = (xs \<noteq> [])"

fun iterate :: "jfield \<Rightarrow> exn + jval list" where
  \<comment> \<open>the values that \<^verbatim>\<open>for engineer in v\<close> runs through\<close>
  "iterate (Array xs) = Inr xs"
| "iterate (Scalar (JStr x)) = Inr (map (\<lambda>c. JStr [c]) x)"
| "iterate (Scalar v) = Inl TypeError"

definition int_field :: "pylib \<Rightarrow> (string \<rightharpoonup> jfield) \<Rightarrow> string \<Rightarrow> int \<Rightarrow> exn + int" where
  \<comment> \<open>\<^verbatim>\<open>int(data.get(k, d))\<close>\<close>
  "int_field P data k d =
     (case data k of
        None \<Rightarrow> Inr d
      | Some (Scalar v) \<Rightarrow> py_int P v
      | Some (Array xs) \<Rightarrow> Inl TypeError)"

record schedule_plan =
  p_date :: date
  p_appointments_considered :: nat
  p_reassignments :: nat
  p_suggestions :: "suggestion list"
  p_generated_at :: datetime

definition optimise_schedule ::
  "pylib \<Rightarrow> datetime \<Rightarrow> store \<Rightarrow> (string \<rightharpoonup> jfield) \<Rightarrow> error + schedule_plan" where
  "optimise_schedule P now s data =
     (case data ''date'' of
        None \<Rightarrow> Inl (Abort 400 ''A target date is required'')
      | Some (Scalar (JStr ds)) \<Rightarrow>
          (case fromisoformat P ds of
             None \<Rightarrow> Inl (Abort 400 (''Invalid date: '' @ isoformat_error P ds))
           | Some t \<Rightarrow>
               (let target_date = date_of t in
                case int_field P data ''travel_buffer_minutes'' 30 of
                  Inl e \<Rightarrow> Inl (Uncaught e)
                | Inr travel_buffer \<Rightarrow>
                    (case int_field P data ''workday_minutes'' (8 * 60) of
                       Inl e \<Rightarrow> Inl (Uncaught e)
                     | Inr workday_minutes \<Rightarrow>
                         (let engineers_input =
                                (case data ''engineers'' of
                                   None \<Rightarrow> Array []
                                 | Some v \<Rightarrow> if truthy_field v then v else Array []);
                              day_start = at_nine target_date
                          in case add_minutes day_start workday_minutes of
                               Inl e \<Rightarrow> Inl (Uncaught e)
                             | Inr day_end \<Rightarrow>
                                 (case iterate engineers_input of
                                    Inl e \<Rightarrow> Inl (Uncaught e)
                                  | Inr engineers \<Rightarrow>
                                      (let st0 = \<lparr>engineer_slots =
                                                    fold (\<lambda>engineer sl.
                                                            slot_set sl (py_str engineer) day_start)
                                                      engineers [],
                                                  reassigned = 0, suggestions = []\<rparr>;
                                           todo = day_appointments s target_date
                                       in case schedule_loop (clients s) day_start day_end
                                                 travel_buffer st0 todo of
                                            Inl e \<Rightarrow> Inl (Uncaught e)
                                          | Inr st \<Rightarrow>
                                              Inr \<lparr>p_date = target_date,
                                                   p_appointments_considered = length todo,
                                                   p_reassignments = reassigned st,
                                                   p_suggestions = suggestions st,
                                                   p_generated_at = now\<rparr>))))))
      | Some _ \<Rightarrow> Inl (Uncaught TypeError))"

section \<open>Appointment creation (\<^verbatim>\<open>create_client_appointment\<close>, lines 537-568)\<close>







section \<open>Binary floating point\<close>

text \<open>
  Python's \<^verbatim>\<open>float\<close> is IEEE 754 binary64. A finite float is modelled by the rational
  number it denotes, and every operation rounds the exact result to the nearest number
  with a 53-bit significand, ties to the even significand. The exponent is not bounded:
  the model agrees with binary64 for magnitudes between \<open>2 ^ -1022\<close> and \<open>2 ^ 1024\<close>,
  which covers the list lengths and the 64-bit integer columns the scorers read.
\<close>

definition round_half_even :: "rat \<Rightarrow> int" where
  "round_half_even x =
     (let f = \<lfloor>x\<rfloor>; r = x - of_int f
      in if r < 1 / 2 then f else if 1 / 2 < r then f + 1 else if even f then f else f + 1)"

text \<open>
  A positive number is scaled by powers of two into \<open>[2 ^ 52, 2 ^ 53)\<close>, rounded to an
  integer there and scaled back.
\<close>

function round_pos :: "rat \<Rightarrow> rat" where
  "round_pos x =
     (if x \<le> 0 then 0
      else if 9007199254740992 \<le> x then 2 * round_pos (x / 2)
      else if x < 4503599627370496 then round_pos (2 * x) / 2
      else of_int (round_half_even x))"
  by pat_completeness auto

termination
proof (relation "measure (\<lambda>x. nat \<lceil>x / 4503599627370496\<rceil> + 2 * nat \<lceil>4503599627370496 / x\<rceil>)")
  show "wf (measure (\<lambda>x::rat. nat \<lceil>x / 4503599627370496\<rceil> + 2 * nat \<lceil>4503599627370496 / x\<rceil>))"
    by simp
next
  fix x :: rat
  assume "\<not> x \<le> 0" and big: "9007199254740992 \<le> x"
  define u where "u = x / 4503599627370496"
  have u: "2 \<le> u" using big by (simp add: u_def)
  have "u / 2 \<le> u - 1" using u by simp
  then have "\<lceil>u / 2\<rceil> \<le> \<lceil>u - 1\<rceil>" by (rule ceiling_mono)
  then have a: "\<lceil>u / 2\<rceil> < \<lceil>u\<rceil>" by simp
  have "0 < 1 / u" "1 / u \<le> 1 / 2" "2 / u \<le> 1" "0 < 2 / u"
    using u by (simp_all add: field_simps)
  then have b: "\<lceil>1 / u\<rceil> = 1" "\<lceil>2 / u\<rceil> = 1"
    by (simp_all add: ceiling_eq_iff)
  have c: "0 < \<lceil>u / 2\<rceil>" using u by simp
  have e1: "x / 2 / 4503599627370496 = u / 2" by (simp add: u_def)
  have e2: "4503599627370496 / (x / 2) = 2 / u" by (simp add: u_def)
  have e3: "4503599627370496 / x = 1 / u" by (simp add: u_def)
  show "(x / 2, x) \<in> measure (\<lambda>x. nat \<lceil>x / 4503599627370496\<rceil> + 2 * nat \<lceil>4503599627370496 / x\<rceil>)"
    unfolding in_measure e1 e2 e3 u_def[symmetric] using a b c by simp
next
  fix x :: rat
  assume pos: "\<not> x \<le> 0" and "\<not> 9007199254740992 \<le> x" and small: "x < 4503599627370496"
  define u where "u = x / 4503599627370496"
  have u: "0 < u" "u < 1" using pos small by (simp_all add: u_def)
  define y where "y = 1 / u"
  have y: "1 < y" using u by (simp add: y_def field_simps)
  have e1: "2 * x / 4503599627370496 = 2 * u" by (simp add: u_def)
  have e2: "4503599627370496 / (2 * x) = y / 2" using pos by (simp add: u_def y_def)
  have e3: "4503599627370496 / x = y" by (simp add: u_def y_def)
  have cu: "\<lceil>u\<rceil> = 1" using u by (simp add: ceiling_eq_iff)
  have goal: "nat \<lceil>2 * u\<rceil> + 2 * nat \<lceil>y / 2\<rceil> < nat \<lceil>u\<rceil> + 2 * nat \<lceil>y\<rceil>"
  proof (cases "2 \<le> y")
    case True
    then have "y / 2 \<le> y - 1" by simp
    then have "\<lceil>y / 2\<rceil> \<le> \<lceil>y - 1\<rceil>" by (rule ceiling_mono)
    then have "\<lceil>y / 2\<rceil> < \<lceil>y\<rceil>" by simp
    moreover have "0 < \<lceil>y / 2\<rceil>" using y by simp
    moreover have "2 * u \<le> 1" using True u by (simp add: y_def field_simps)
    then have "\<lceil>2 * u\<rceil> = 1" using u by (simp add: ceiling_eq_iff)
    ultimately show ?thesis using cu by simp
  next
    case False
    then have "\<lceil>y\<rceil> = 2" using y by (simp add: ceiling_eq_iff)
    moreover have "\<lceil>y / 2\<rceil> = 1" using y False by (simp add: ceiling_eq_iff)
    moreover have "\<lceil>2 * u\<rceil> \<le> 2" using u by (simp add: ceiling_le_iff)
    then have "nat \<lceil>2 * u\<rceil> \<le> 2" by linarith
    ultimately show ?thesis using cu by simp
  qed
  show "(2 * x, x) \<in> measure (\<lambda>x. nat \<lceil>x / 4503599627370496\<rceil> + 2 * nat \<lceil>4503599627370496 / x\<rceil>)"
    unfolding in_measure e1 e2 e3 u_def[symmetric] by (rule goal)
qed

declare round_pos.simps [simp del]

definition fl :: "rat \<Rightarrow> rat" where
  "fl x = (if x < 0 then - round_pos (- x) else round_pos x)"

definition lit :: "rat \<Rightarrow> rat" where
  \<comment> \<open>the float written as a decimal literal\<close>
  "lit x = fl x"

definition f_add :: "rat \<Rightarrow> rat \<Rightarrow> rat" where
  "f_add a b = fl (a + b)"

definition f_mul :: "rat \<Rightarrow> rat \<Rightarrow> rat" where
  "f_mul a b = fl (a * b)"

definition int_mul_float :: "int \<Rightarrow> rat \<Rightarrow> rat" where
  \<comment> \<open>\<^verbatim>\<open>n * x\<close> for an int \<open>n\<close>: the int is converted to a float first\<close>
  "int_mul_float n x = f_mul (fl (of_int n)) x"



section \<open>Risk scoring (\<^verbatim>\<open>calculate_churn_risk\<close>, \<^verbatim>\<open>calculate_engineer_load\<close>, lines 46-113)\<close>

text \<open>
  The clock is read once: \<open>now\<close> stands for every \<^verbatim>\<open>datetime.utcnow()\<close> of one call.
\<close>

definition calculate_churn_risk ::
  "datetime \<Rightarrow> client \<Rightarrow> ticket list \<Rightarrow> task list \<Rightarrow> appointment list \<Rightarrow> rat \<times> string" where
  "calculate_churn_risk now cl tks tsks appts =
     (let open_tickets = int (length (filter (\<lambda>t. t_status t = ''open'') tks));
          high_priority =
            int (length (filter (\<lambda>t. t_status t = ''open'' \<and> t_priority t = ''high'') tks));
          overdue_tasks =
            int (length (filter (\<lambda>k. k_status k \<noteq> ''completed''
                                      \<and> (case k_due_date k of None \<Rightarrow> False
                                          | Some d \<Rightarrow> d < date_of now)) tsks));
          missed_appointments = int (length (filter (\<lambda>a. a_status a = ''cancelled'') appts));
          days_since_touch = (now - c_updated_at cl) div us_per_day;
          p0 = lit (1 / 20);
          p1 = f_add p0 (min (lit (3 / 10)) (int_mul_float open_tickets (lit (1 / 20))));
          p2 = f_add p1 (min (lit (3 / 10)) (int_mul_float high_priority (lit (1 / 10))));
          p3 = f_add p2 (min (lit (1 / 5)) (int_mul_float overdue_tasks (lit (2 / 25))));
          p4 = f_add p3 (if missed_appointments \<noteq> 0 then lit (1 / 10) else 0);
          p5 = f_add p4 (if 30 < days_since_touch then lit (1 / 20) else 0);
          probability = min p5 (lit (19 / 20));
          label = (if lit (3 / 5) \<le> probability then ''high''
                   else if lit (7 / 20) \<le> probability then ''medium''
                   else ''low'')
      in (probability, label))"









section \<open>Auxiliary notions for the statements\<close>

text \<open>The rows that belong to one deduplication key.\<close>

definition incidents_for_key :: "store \<Rightarrow> string \<Rightarrow> incident list" where
  "incidents_for_key s key =
     filter (\<lambda>i. i_source i = ''zabbix'' \<and> i_external_id i = key) (incidents s)"

definition tickets_for_key :: "store \<Rightarrow> string \<Rightarrow> ticket list" where
  "tickets_for_key s key =
     filter (\<lambda>t. Some (t_id t) \<in> set (map i_ticket_id (incidents_for_key s key))) (tickets s)"

text \<open>The visits suggested for one engineer, and the shape of their sequence.\<close>

definition engineer_suggestions :: "string \<Rightarrow> suggestion list \<Rightarrow> suggestion list" where
  "engineer_suggestions e sgs = filter (\<lambda>g. sg_recommended_engineer g = e) sgs"

definition end_plus_buffer :: "int \<Rightarrow> suggestion \<Rightarrow> datetime" where
  "end_plus_buffer b g = sg_optimized_end g + b * us_per_minute"

fun chained :: "int \<Rightarrow> suggestion list \<Rightarrow> bool" where
  "chained b [] = True"
| "chained b [g] = True"
| "chained b (g # h # rest) = (end_plus_buffer b g \<le> sg_optimized_start h \<and> chained b (h # rest))"

definition ends_with_buffer :: "int \<Rightarrow> string \<Rightarrow> suggestion list \<Rightarrow> datetime list" where
  "ends_with_buffer b e sgs = map (end_plus_buffer b) (engineer_suggestions e sgs)"

definition plan_suggestions :: "error + schedule_plan \<Rightarrow> suggestion list" where
  "plan_suggestions r = (case r of Inl _ \<Rightarrow> [] | Inr p \<Rightarrow> p_suggestions p)"




text \<open>Invariants of the optimizer loop.\<close>

definition inv_chain :: "int \<Rightarrow> opt_state \<Rightarrow> bool" where
  "inv_chain b st \<longleftrightarrow>
     (\<forall>e. chained b (engineer_suggestions e (suggestions st))
        \<and> (engineer_suggestions e (suggestions st) \<noteq> [] \<longrightarrow>
             (\<exists>v. map_of (engineer_slots st) e = Some v
                \<and> end_plus_buffer b (last (engineer_suggestions e (suggestions st))) \<le> v)))"

definition inv_sorted :: "int \<Rightarrow> opt_state \<Rightarrow> bool" where
  "inv_sorted b st \<longleftrightarrow>
     (\<forall>e. sorted (map (end_plus_buffer b) (engineer_suggestions e (suggestions st)))
        \<and> (\<forall>g\<in>set (engineer_suggestions e (suggestions st)).
             \<exists>v. map_of (engineer_slots st) e = Some v \<and> end_plus_buffer b g \<le> v))"




text \<open>The numbers with a 53-bit significand.\<close>

definition representable :: "rat \<Rightarrow> bool" where
  "representable d \<longleftrightarrow>
     (\<exists>m k. \<bar>m\<bar> < 9007199254740992 \<and> (d = of_int m * 2 ^ k \<or> d = of_int m / 2 ^ k))"

section \<open>A concrete library and store for evaluation\<close>

definition ascii_lower :: "string \<Rightarrow> string" where
  "ascii_lower =
     map (\<lambda>c. case map_of (zip ''ABCDEFGHIJKLMNOPQRSTUVWXYZ'' ''abcdefghijklmnopqrstuvwxyz'') c of
                 None \<Rightarrow> c | Some d \<Rightarrow> d)"

definition demo_lib :: pylib where
  "demo_lib = \<lparr>str_lower = ascii_lower,
               int_of_str = (\<lambda>s. None),
               fromisoformat = (\<lambda>s. if s = ''2024-05-01'' then Some (739007 * us_per_day) else None),
               isoformat_error = (\<lambda>s. ''Invalid isoformat string: '' @ [CHR 0x27] @ s @ [CHR 0x27])\<rparr>"

definition demo_store :: store where
  "demo_store = \<lparr>clients = [\<lparr>c_id = 5, c_name = ''Acme'', c_updated_at = 0\<rparr>],
                 tickets = [], incidents = [], appointments = []\<rparr>"

definition demo_event :: "string \<rightharpoonup> jval" where
  "demo_event = [''event_id'' \<mapsto> JStr ''EVT-1'', ''client_id'' \<mapsto> JInt 5,
                 ''severity'' \<mapsto> JStr ''Disaster'', ''message'' \<mapsto> JStr ''down'']"

definition demo_ticket :: ticket where
  "demo_ticket = \<lparr>t_id = 1, t_client_id = 5, t_subject = ''[Zabbix] Zabbix incident EVT-1'',
      t_description = JStr ''down'', t_priority = ''high'', t_status = ''open'',
      t_assigned_to = JStr ''Monitoring'', t_due_date = Some 1\<rparr>"

definition demo_incident :: incident where
  "demo_incident = \<lparr>i_id = 1, i_client_id = 5, i_source = ''zabbix'', i_external_id = ''EVT-1'',
      i_severity = ''disaster'', i_message = JStr ''down'', i_status = ''open'',
      i_occurred_at = 0, i_ticket_id = Some 1\<rparr>"

definition demo_store1 :: store where
  "demo_store1 = demo_store\<lparr>tickets := [demo_ticket], incidents := [demo_incident]\<rparr>"



definition alice_store :: store where
  "alice_store = demo_store\<lparr>appointments :=
     [\<lparr>a_id = 2, a_client_id = 5, a_start_time = at_nine 739007 + 15 * us_per_minute,
       a_duration_minutes = 60, a_status = ''scheduled'', a_assigned_to = Some ''Alice''\<rparr>,
      \<lparr>a_id = 1, a_client_id = 5, a_start_time = at_nine 739007, a_duration_minutes = 60,
       a_status = ''scheduled'', a_assigned_to = Some ''Alice''\<rparr>]\<rparr>"

definition alice_data :: "string \<rightharpoonup> jfield" where
  "alice_data = [''date'' \<mapsto> Scalar (JStr ''2024-05-01''),
                 ''travel_buffer_minutes'' \<mapsto> Scalar (JInt 30),
                 ''engineers'' \<mapsto> Array [JStr ''Alice'']]"

definition cx_store :: store where
  "cx_store = demo_store\<lparr>appointments :=
     [\<lparr>a_id = 1, a_client_id = 5, a_start_time = at_nine 739007, a_duration_minutes = 60,
       a_status = ''scheduled'', a_assigned_to = Some ''Alice''\<rparr>,
      \<lparr>a_id = 2, a_client_id = 5, a_start_time = at_nine 739007 + 10 * us_per_minute,
       a_duration_minutes = 30, a_status = ''scheduled'', a_assigned_to = Some ''Alice''\<rparr>]\<rparr>"

definition cx_data :: "string \<rightharpoonup> jfield" where
  "cx_data = [''date'' \<mapsto> Scalar (JStr ''2024-05-01''),
              ''travel_buffer_minutes'' \<mapsto> Scalar (JInt (- 120)),
              ''engineers'' \<mapsto> Array [JStr ''Alice'']]"



definition churn_client :: client where
  "churn_client = \<lparr>c_id = 5, c_name = ''Acme'', c_updated_at = 0\<rparr>"

definition churn_tickets :: "ticket list" where
  "churn_tickets =
     [demo_ticket, demo_ticket\<lparr>t_id := 2, t_priority := ''normal''\<rparr>,
      demo_ticket\<lparr>t_id := 3, t_priority := ''low''\<rparr>,
      demo_ticket\<lparr>t_id := 4, t_status := ''resolved''\<rparr>]"





section \<open>Properties of incident ingestion\<close>



lemma resolve_linked_frame:
  "map t_id (resolve_linked inc ts) = map t_id ts"
  "map t_priority (resolve_linked inc ts) = map t_priority ts"
  "map t_due_date (resolve_linked inc ts) = map t_due_date ts"
  by (induction ts) (auto simp: resolve_linked_def)

lemma ingest_update_Inr:
  assumes "ingest_update P s existing data severity message = Inr (s', inc', code)"
  shows "code = 200"
    and "message \<noteq> JNull"
    and "clients s' = clients s"
    and "incidents s' = map (\<lambda>i. if i_id i = i_id existing then inc' else i) (incidents s)"
    and "tickets s' = tickets s \<or> tickets s' = resolve_linked existing (tickets s)"
    and "i_severity inc' = severity"
    and "i_message inc' = message"
    and "i_id inc' = i_id existing"
    and "i_client_id inc' = i_client_id existing"
    and "i_occurred_at inc' = i_occurred_at existing"
    and "i_source inc' = i_source existing"
    and "i_external_id inc' = i_external_id existing"
    and "i_ticket_id inc' = i_ticket_id existing"
  using assms
  by (auto simp: ingest_update_def Let_def split: if_splits option.splits prod.splits)


lemma ingest_update_succeeds:
  assumes "message \<noteq> JNull"
  shows "\<exists>s' inc'. ingest_update P s existing data severity message = Inr (s', inc', 200)"
  using assms
  by (auto simp: ingest_update_def Let_def split: if_splits option.splits prod.splits)


lemma ingest_on_update_path:
  assumes "data ''event_id'' = Some event_id"
    and "data ''client_id'' = Some raw_client_id"
    and "data ''severity'' = Some raw_severity"
    and "data ''message'' = Some message"
    and "py_int P raw_client_id = Inr client_id"
    and "find (\<lambda>c. c_id c = client_id) (clients s) = Some cl"
    and "find_incident s (py_str event_id) = Some existing"
  shows "ingest_zabbix_event P now s data
           = ingest_update P s existing data (str_lower P (py_str raw_severity)) message"
  using assms by (simp add: ingest_zabbix_event_def Let_def)

lemma ingest_on_create_path:
  assumes "data ''event_id'' = Some event_id"
    and "data ''client_id'' = Some raw_client_id"
    and "data ''severity'' = Some raw_severity"
    and "data ''message'' = Some message"
    and "py_int P raw_client_id = Inr client_id"
    and "find (\<lambda>c. c_id c = client_id) (clients s) = Some cl"
    and "find_incident s (py_str event_id) = None"
  shows "ingest_zabbix_event P now s data
           = ingest_create P now s cl data event_id (str_lower P (py_str raw_severity))
               (priority_for (str_lower P (py_str raw_severity))) message"
  using assms by (simp add: ingest_zabbix_event_def Let_def)

lemma ingest_cases:
  assumes "ingest_zabbix_event P now s data = Inr r"
  obtains event_id raw_client_id raw_severity message client_id cl
  where "data ''event_id'' = Some event_id" "data ''client_id'' = Some raw_client_id"
    "data ''severity'' = Some raw_severity" "data ''message'' = Some message"
    "py_int P raw_client_id = Inr client_id" "find (\<lambda>c. c_id c = client_id) (clients s) = Some cl"
    "(\<exists>existing. find_incident s (py_str event_id) = Some existing \<and>
        ingest_update P s existing data (str_lower P (py_str raw_severity)) message = Inr r)
     \<or> (find_incident s (py_str event_id) = None \<and>
        ingest_create P now s cl data event_id (str_lower P (py_str raw_severity))
          (priority_for (str_lower P (py_str raw_severity))) message = Inr r)"
  using assms
  by (auto simp: ingest_zabbix_event_def Let_def split: option.splits sum.splits)

lemma ingest_create_Inr:
  assumes "ingest_create P now s cl data event_id severity priority message = Inr (s1, inc1, code)"
  shows "code = 201"
    and "message \<noteq> JNull"
    and "s1 = s\<lparr>tickets := tickets s @ [new_ticket now s cl data event_id priority message],
               incidents := incidents s @ [inc1]\<rparr>"
    and "\<exists>t. inc1 = new_incident P s cl data event_id severity message t
                 (new_ticket now s cl data event_id priority message)"
  using assms unfolding ingest_create_def Let_def
  by (auto split: sum.splits if_splits)

lemma new_ticket_fields:
  "t_id (new_ticket now s cl data event_id priority message) = next_id (map t_id (tickets s))"
  "t_priority (new_ticket now s cl data event_id priority message) = priority"
  "t_status (new_ticket now s cl data event_id priority message) = ''open''"
  "t_due_date (new_ticket now s cl data event_id priority message)
     = (if priority = ''high'' then Some (date_of now + 1) else None)"
  by (simp_all add: new_ticket_def Let_def)

lemma new_incident_fields:
  "i_id (new_incident P s cl data event_id severity message t tk) = next_id (map i_id (incidents s))"
  "i_source (new_incident P s cl data event_id severity message t tk) = ''zabbix''"
  "i_external_id (new_incident P s cl data event_id severity message t tk) = py_str event_id"
  "i_ticket_id (new_incident P s cl data event_id severity message t tk) = Some (t_id tk)"
  by (simp_all add: new_incident_def)

lemma fold_max_ge: "(x::int) \<in> set (i # js) \<Longrightarrow> x \<le> fold max js i"
  unfolding Max.set_eq_fold [symmetric] by (rule Max_ge) auto

lemma next_id_fresh: "x \<in> set ids \<Longrightarrow> x < next_id ids"
  using fold_max_ge by (cases ids) (fastforce simp: next_id_def)+

lemma find_append_None:
  "find Q xs = None \<Longrightarrow> find Q (xs @ ys) = find Q ys"
  by (induction xs) (auto split: if_splits)

lemma filter_find_None:
  "find Q xs = None \<Longrightarrow> filter Q xs = []"
  by (induction xs) (auto split: if_splits)

lemma created_store_facts:
  assumes "ingest_zabbix_event P now s ev = Inr (s1, inc1, 201)"
  obtains event_id raw_client_id raw_severity message client_id cl tk where
    "ev ''event_id'' = Some event_id" "ev ''client_id'' = Some raw_client_id"
    "ev ''severity'' = Some raw_severity" "ev ''message'' = Some message"
    "py_int P raw_client_id = Inr client_id"
    "find (\<lambda>c. c_id c = client_id) (clients s) = Some cl"
    "message \<noteq> JNull"
    "find_incident s (py_str event_id) = None"
    "s1 = s\<lparr>tickets := tickets s @ [tk], incidents := incidents s @ [inc1]\<rparr>"
    "t_id tk = next_id (map t_id (tickets s))"
    "i_id inc1 = next_id (map i_id (incidents s))"
    "i_source inc1 = ''zabbix''" "i_external_id inc1 = py_str event_id"
    "i_ticket_id inc1 = Some (t_id tk)"
proof -
  from assms show thesis
  proof (rule ingest_cases)
    fix event_id raw_client_id raw_severity message client_id cl
    assume f: "ev ''event_id'' = Some event_id" "ev ''client_id'' = Some raw_client_id"
      "ev ''severity'' = Some raw_severity" "ev ''message'' = Some message"
      "py_int P raw_client_id = Inr client_id"
      "find (\<lambda>c. c_id c = client_id) (clients s) = Some cl"
    assume d: "(\<exists>existing. find_incident s (py_str event_id) = Some existing \<and>
        ingest_update P s existing ev (str_lower P (py_str raw_severity)) message = Inr (s1, inc1, 201))
     \<or> (find_incident s (py_str event_id) = None \<and>
        ingest_create P now s cl ev event_id (str_lower P (py_str raw_severity))
          (priority_for (str_lower P (py_str raw_severity))) message = Inr (s1, inc1, 201))"
    have "\<not> (\<exists>existing. ingest_update P s existing ev (str_lower P (py_str raw_severity)) message
              = Inr (s1, inc1, 201))"
      using ingest_update_Inr(1) by fastforce
    with d have n: "find_incident s (py_str event_id) = None"
      and c: "ingest_create P now s cl ev event_id (str_lower P (py_str raw_severity))
          (priority_for (str_lower P (py_str raw_severity))) message = Inr (s1, inc1, 201)"
      by auto
    note r = ingest_create_Inr[OF c]
    from r(4) obtain t where i: "inc1 = new_incident P s cl ev event_id
        (str_lower P (py_str raw_severity)) message t
        (new_ticket now s cl ev event_id (priority_for (str_lower P (py_str raw_severity))) message)"
      by blast
    show thesis
      by (rule that[OF f r(2) n r(3)])
         (simp_all add: i new_ticket_fields new_incident_fields)
  qed
qed

lemmas demo_defs = ingest_zabbix_event_def ingest_create_def new_ticket_def new_incident_def
  parse_occurred_at_def ingest_update_def find_incident_def
  linked_ticket_def resolve_linked_def demo_lib_def
  demo_store_def demo_event_def demo_store1_def demo_ticket_def demo_incident_def
  priority_for_def SEVERITY_PRIORITY_MAP_def get_truthy_def next_id_def date_of_def
  us_per_day_def ascii_lower_def Let_def incidents_for_key_def tickets_for_key_def

lemma map_replace_fresh:
  "\<forall>i\<in>set xs. h i \<noteq> k \<Longrightarrow> map (\<lambda>i. if h i = k then y else i) xs = xs"
  by (induction xs) auto

lemma length_filter_by_id:
  "length (filter (\<lambda>t. h t = k) ts) = length (filter (\<lambda>i. i = k) (map h ts))"
  by (induction ts) auto

lemma filter_eq_fresh:
  "\<forall>x\<in>set xs. x \<noteq> k \<Longrightarrow> filter (\<lambda>i. i = k) xs = []"
  by (induction xs) auto

lemma next_id_fresh_map:
  "\<forall>x\<in>set xs. h x \<noteq> next_id (map h xs)"
proof
  fix x assume "x \<in> set xs"
  then have "h x \<in> set (map h xs)" by simp
  then have "h x < next_id (map h xs)" by (rule next_id_fresh)
  then show "h x \<noteq> next_id (map h xs)" by simp
qed


lemma update_after_create:
  assumes ts1: "tickets s1 = tickets s @ [tk]"
    and is1: "incidents s1 = incidents s @ [inc1]"
    and none: "find_incident s key = None"
    and tid: "t_id tk = next_id (map t_id (tickets s))"
    and iid: "i_id inc1 = next_id (map i_id (incidents s))"
    and src: "i_source inc1 = ''zabbix''" and ext: "i_external_id inc1 = key"
    and lnk: "i_ticket_id inc1 = Some (t_id tk)"
    and upd: "ingest_update P s1 inc1 data severity message = Inr (s2, inc2, code)"
  shows "code = 200" and "i_id inc2 = i_id inc1"
    and "map t_id (tickets s2) = map t_id (tickets s1)"
    and "map i_id (incidents s2) = map i_id (incidents s1)"
    and "length (incidents_for_key s2 key) = 1"
    and "length (tickets_for_key s2 key) = 1"
proof -
  note u = ingest_update_Inr[OF upd]
  show "code = 200" by (rule u(1))
  show "i_id inc2 = i_id inc1" by (rule u(8))
  show t: "map t_id (tickets s2) = map t_id (tickets s1)"
    using u(5) resolve_linked_frame(1)[of inc1 "tickets s1"] by presburger
  have fresh_i: "\<forall>i\<in>set (incidents s). i_id i \<noteq> i_id inc1"
    unfolding iid by (rule next_id_fresh_map)
  have "map (\<lambda>i. if i_id i = i_id inc1 then inc2 else i) (incidents s) = incidents s"
    using fresh_i by (rule map_replace_fresh)
  then have inc2: "incidents s2 = incidents s @ [inc2]"
    unfolding u(4) is1 by simp
  show "map i_id (incidents s2) = map i_id (incidents s1)"
    unfolding inc2 is1 by (simp add: u(8))
  have "filter (\<lambda>i. i_source i = ''zabbix'' \<and> i_external_id i = key) (incidents s) = []"
    using none unfolding find_incident_def by (rule filter_find_None)
  then have k: "incidents_for_key s2 key = [inc2]"
    unfolding incidents_for_key_def inc2 by (simp add: u(11) u(12) src ext)
  then show "length (incidents_for_key s2 key) = 1" by simp
  have fresh_t: "\<forall>x\<in>set (tickets s). t_id x \<noteq> t_id tk"
    unfolding tid by (rule next_id_fresh_map)
  have "tickets_for_key s2 key = filter (\<lambda>t. t_id t = t_id tk) (tickets s2)"
    unfolding tickets_for_key_def k by (simp add: u(13) lnk)
  then have "length (tickets_for_key s2 key)
      = length (filter (\<lambda>i. i = t_id tk) (map t_id (tickets s1)))"
    using length_filter_by_id[of t_id "t_id tk" "tickets s2"] t by simp
  also have "\<dots> = 1"
    unfolding ts1 using fresh_t by (simp add: filter_eq_fresh)
  finally show "length (tickets_for_key s2 key) = 1" .
qed

text \<open>
  Claim C1. When a first delivery of an event created its incident and ticket (status
  201), delivering the same event again succeeds as an update (status 200), and every
  later delivery under the same \<^verbatim>\<open>event_id\<close> that succeeds is an update of that same
  incident: it adds no ticket and no incident, so the store holds exactly one incident
  and exactly one ticket for the key.
\<close>

theorem ingest_idempotent:
  assumes first: "ingest_zabbix_event P now s ev = Inr (s1, inc1, 201)"
    and same: "map_option py_str (ev' ''event_id'') = map_option py_str (ev ''event_id'')"
  shows "(\<exists>s2 inc2. ingest_zabbix_event P now' s1 ev = Inr (s2, inc2, 200)) \<and>
         (\<forall>s2 inc2 code. ingest_zabbix_event P now' s1 ev' = Inr (s2, inc2, code) \<longrightarrow>
            code = 200 \<and> i_id inc2 = i_id inc1
            \<and> map t_id (tickets s2) = map t_id (tickets s1)
            \<and> map i_id (incidents s2) = map i_id (incidents s1)
            \<and> length (incidents_for_key s2 (i_external_id inc1)) = 1
            \<and> length (tickets_for_key s2 (i_external_id inc1)) = 1)"
proof -
  from first obtain event_id raw_client_id raw_severity message client_id cl tk where
    f: "ev ''event_id'' = Some event_id" "ev ''client_id'' = Some raw_client_id"
       "ev ''severity'' = Some raw_severity" "ev ''message'' = Some message"
       "py_int P raw_client_id = Inr client_id"
    and cl: "find (\<lambda>c. c_id c = client_id) (clients s) = Some cl"
    and msg: "message \<noteq> JNull"
    and none: "find_incident s (py_str event_id) = None"
    and s1: "s1 = s\<lparr>tickets := tickets s @ [tk], incidents := incidents s @ [inc1]\<rparr>"
    and tid: "t_id tk = next_id (map t_id (tickets s))"
    and iid: "i_id inc1 = next_id (map i_id (incidents s))"
    and src: "i_source inc1 = ''zabbix''" and ext: "i_external_id inc1 = py_str event_id"
    and lnk: "i_ticket_id inc1 = Some (t_id tk)"
    by (rule created_store_facts)
  have ts1: "tickets s1 = tickets s @ [tk]" and is1: "incidents s1 = incidents s @ [inc1]"
    by (simp_all add: s1)
  have found: "find_incident s1 (py_str event_id) = Some inc1"
    using none by (simp add: find_incident_def s1 find_append_None src ext)
  have cl1: "find (\<lambda>c. c_id c = client_id) (clients s1) = Some cl"
    using cl by (simp add: s1)
  have again: "\<exists>s2 inc2. ingest_zabbix_event P now' s1 ev = Inr (s2, inc2, 200)"
    unfolding ingest_on_update_path[OF f cl1 found]
    by (rule ingest_update_succeeds[OF msg])
  have other: "code = 200 \<and> i_id inc2 = i_id inc1
            \<and> map t_id (tickets s2) = map t_id (tickets s1)
            \<and> map i_id (incidents s2) = map i_id (incidents s1)
            \<and> length (incidents_for_key s2 (i_external_id inc1)) = 1
            \<and> length (tickets_for_key s2 (i_external_id inc1)) = 1"
    if second: "ingest_zabbix_event P now' s1 ev' = Inr (s2, inc2, code)" for s2 inc2 code
  proof -
    from second show ?thesis
    proof (rule ingest_cases)
      fix event_id' raw_client_id' raw_severity' message' client_id' cl'
      assume e': "ev' ''event_id'' = Some event_id'"
      assume d: "(\<exists>existing. find_incident s1 (py_str event_id') = Some existing \<and>
          ingest_update P s1 existing ev' (str_lower P (py_str raw_severity')) message'
            = Inr (s2, inc2, code))
        \<or> (find_incident s1 (py_str event_id') = None \<and>
          ingest_create P now' s1 cl' ev' event_id' (str_lower P (py_str raw_severity'))
            (priority_for (str_lower P (py_str raw_severity'))) message' = Inr (s2, inc2, code))"
      have key: "py_str event_id' = py_str event_id"
        using same e' f(1) by simp
      from d found have upd: "ingest_update P s1 inc1 ev' (str_lower P (py_str raw_severity'))
          message' = Inr (s2, inc2, code)"
        by (auto simp: key)
      show ?thesis
        unfolding ext
        using update_after_create[OF ts1 is1 none tid iid src ext lnk upd] by simp
    qed
  qed
  from again other show ?thesis by blast
qed


theorem ingest_idempotent_witness:
  "ingest_zabbix_event demo_lib 0 demo_store demo_event = Inr (demo_store1, demo_incident, 201)
   \<and> (\<exists>s2 inc2. ingest_zabbix_event demo_lib 7 demo_store1
                      (demo_event(''status'' \<mapsto> JStr ''Resolved'')) = Inr (s2, inc2, 200)
          \<and> i_id inc2 = 1 \<and> map t_id (tickets s2) = [1] \<and> map i_id (incidents s2) = [1]
          \<and> length (incidents_for_key s2 ''EVT-1'') = 1
          \<and> length (tickets_for_key s2 ''EVT-1'') = 1)"
proof -
  have first: "ingest_zabbix_event demo_lib 0 demo_store demo_event
      = Inr (demo_store1, demo_incident, 201)"
    by (simp add: demo_defs)
  have same: "map_option py_str ((demo_event(''status'' \<mapsto> JStr ''Resolved'')) ''event_id'')
      = map_option py_str (demo_event ''event_id'')"
    by (simp add: demo_event_def)
  have "\<exists>s2 inc2 code. ingest_zabbix_event demo_lib 7 demo_store1
      (demo_event(''status'' \<mapsto> JStr ''Resolved'')) = Inr (s2, inc2, code)"
    by (simp add: demo_defs)
  then obtain s2 inc2 code where second: "ingest_zabbix_event demo_lib 7 demo_store1
      (demo_event(''status'' \<mapsto> JStr ''Resolved'')) = Inr (s2, inc2, code)"
    by blast
  from ingest_idempotent[where ev' = "demo_event(''status'' \<mapsto> JStr ''Resolved'')"
      and now' = 7, OF first same] second
  have "code = 200 \<and> i_id inc2 = i_id demo_incident
      \<and> map t_id (tickets s2) = map t_id (tickets demo_store1)
      \<and> map i_id (incidents s2) = map i_id (incidents demo_store1)
      \<and> length (incidents_for_key s2 (i_external_id demo_incident)) = 1
      \<and> length (tickets_for_key s2 (i_external_id demo_incident)) = 1"
    by blast
  with first second show ?thesis
    by (simp add: demo_store1_def demo_incident_def demo_ticket_def)
qed

text \<open>
  Claim C2. The escalation lookup is the fixed table: on the lowercased severity,
  \<^verbatim>\<open>disaster\<close> and \<^verbatim>\<open>high\<close> give \<^verbatim>\<open>high\<close>, \<^verbatim>\<open>average\<close> and
  \<^verbatim>\<open>warning\<close> give \<^verbatim>\<open>normal\<close>, \<^verbatim>\<open>information\<close> and \<^verbatim>\<open>not_classified\<close>
  give \<^verbatim>\<open>low\<close>, and every other string gives \<^verbatim>\<open>normal\<close>. The lookup is a total
  function of its argument alone.
\<close>

theorem priority_for_table:
  "priority_for severity =
     (if severity = ''disaster'' \<or> severity = ''high'' then ''high''
      else if severity = ''average'' \<or> severity = ''warning'' then ''normal''
      else if severity = ''information'' \<or> severity = ''not_classified'' then ''low''
      else ''normal'')"
  by (simp add: priority_for_def SEVERITY_PRIORITY_MAP_def)

theorem priority_for_table_witness:
  "priority_for ''disaster'' = ''high'' \<and> priority_for ''average'' = ''normal''
   \<and> priority_for ''information'' = ''low'' \<and> priority_for ''unknown-value'' = ''normal''"
  using priority_for_table[of "''disaster''"] priority_for_table[of "''average''"]
    priority_for_table[of "''information''"] priority_for_table[of "''unknown-value''"]
  by simp









section \<open>Properties of the schedule optimizer\<close>

lemma map_of_slot_set: "map_of (slot_set sl k v) = (map_of sl)(k \<mapsto> v)"
  by (induction sl k v rule: slot_set.induct) auto

lemma add_minutes_Inr: "add_minutes t m = Inr r \<Longrightarrow> r = t + m * us_per_minute"
  by (auto simp: add_minutes_def timedelta_minutes_def dt_add_def Let_def split: if_splits sum.splits)

lemma pick_engineer_slots:
  assumes "pick_engineer day_start st a = (engineer, slots1, n)"
  shows "slots1 = engineer_slots st
         \<or> (engineer_slots st = [] \<and> slots1 = [(engineer, day_start)])
         \<or> (engineer \<notin> set (map fst (engineer_slots st))
              \<and> slots1 = engineer_slots st @ [(engineer, day_start)])"
proof (cases "case a_assigned_to a of None \<Rightarrow> None | Some e \<Rightarrow> if e = [] then None else Some e")
  case None
  with assms show ?thesis
    by (cases "engineer_slots st") (auto simp: pick_engineer_def)
next
  case (Some e)
  with assms show ?thesis
    by (auto simp: pick_engineer_def split: if_splits)
qed

lemma pick_engineer_keeps:
  assumes "pick_engineer day_start st a = (engineer, slots1, n)"
    and "map_of (engineer_slots st) e = Some v"
  shows "map_of slots1 e = Some v"
  using pick_engineer_slots[OF assms(1)] assms(2)
  by (auto simp: map_add_def)

lemma schedule_step_Inr:
  assumes "schedule_step cls day_start day_end b st a = Inr st'"
  obtains engineer slots1 free g where
    "\<forall>e v. map_of (engineer_slots st) e = Some v \<longrightarrow> map_of slots1 e = Some v"
    "map_of slots1 engineer = Some free"
    "sg_recommended_engineer g = engineer"
    "sg_optimized_start g = max (a_start_time a) free"
    "sg_optimized_end g = sg_optimized_start g + a_duration_minutes a * us_per_minute"
    "sg_current_start g = a_start_time a"
    "engineer_slots st' = slot_set slots1 engineer (end_plus_buffer b g)"
    "suggestions st' = suggestions st @ [g]"
proof -
  obtain engineer slots1 n where p: "pick_engineer day_start st a = (engineer, slots1, n)"
    by (cases "pick_engineer day_start st a") auto
  from assms p obtain free where f: "map_of slots1 engineer = Some free"
    by (auto simp: schedule_step_def split: option.splits)
  from assms p f obtain suggested_end next_free where
    e: "add_minutes (max (a_start_time a) free) (a_duration_minutes a) = Inr suggested_end"
    and n: "add_minutes suggested_end b = Inr next_free"
    by (auto simp: schedule_step_def Let_def split: sum.splits)
  let ?g = "\<lparr>sg_appointment_id = a_id a,
             sg_client = map_option c_name (find (\<lambda>c. c_id c = a_client_id a) cls),
             sg_assigned_engineer = a_assigned_to a,
             sg_recommended_engineer = engineer,
             sg_current_start = a_start_time a,
             sg_optimized_start = max (a_start_time a) free,
             sg_optimized_end = suggested_end,
             sg_travel_buffer_minutes = b,
             sg_notes = (if next_free > day_end
                         then Some ''Extends beyond workday; consider another engineer''
                         else if max (a_start_time a) free > a_start_time a
                              then Some ''Resolved overlap with preceding visit'' else None)\<rparr>"
  from assms p f e n have st': "st' = \<lparr>engineer_slots = slot_set slots1 engineer next_free,
      reassigned = n, suggestions = suggestions st @ [?g]\<rparr>"
    by (simp add: schedule_step_def Let_def)
  show thesis
  proof (rule that[of slots1 engineer free ?g])
    show "\<forall>e v. map_of (engineer_slots st) e = Some v \<longrightarrow> map_of slots1 e = Some v"
      using pick_engineer_keeps[OF p] by blast
    show "map_of slots1 engineer = Some free" by (rule f)
    show "engineer_slots st' = slot_set slots1 engineer (end_plus_buffer b ?g)"
      using add_minutes_Inr[OF n] by (simp add: st' end_plus_buffer_def)
    show "sg_optimized_end ?g = sg_optimized_start ?g + a_duration_minutes a * us_per_minute"
      using add_minutes_Inr[OF e] by simp
  qed (simp_all add: st')
qed


lemma chained_snoc:
  "chained b (xs @ [g]) \<longleftrightarrow>
     chained b xs \<and> (xs \<noteq> [] \<longrightarrow> end_plus_buffer b (last xs) \<le> sg_optimized_start g)"
  by (induction b xs rule: chained.induct) auto

lemma engineer_suggestions_snoc:
  "engineer_suggestions e (sgs @ [g])
     = (if sg_recommended_engineer g = e then engineer_suggestions e sgs @ [g]
        else engineer_suggestions e sgs)"
  by (simp add: engineer_suggestions_def)

lemma step_inv_chain:
  assumes step: "schedule_step cls day_start day_end b st a = Inr st'"
    and inv: "inv_chain b st"
  shows "inv_chain b st'"
proof -
  from step obtain engineer slots1 free g where
    keep0: "\<forall>e v. map_of (engineer_slots st) e = Some v \<longrightarrow> map_of slots1 e = Some v"
    and free: "map_of slots1 engineer = Some free"
    and rec: "sg_recommended_engineer g = engineer"
    and start: "sg_optimized_start g = max (a_start_time a) free"
    and fin: "sg_optimized_end g = sg_optimized_start g + a_duration_minutes a * us_per_minute"
    and cur: "sg_current_start g = a_start_time a"
    and sl: "engineer_slots st' = slot_set slots1 engineer (end_plus_buffer b g)"
    and sg: "suggestions st' = suggestions st @ [g]"
    by (rule schedule_step_Inr)
  note keep = keep0[rule_format]
  have "chained b (engineer_suggestions e (suggestions st'))
        \<and> (engineer_suggestions e (suggestions st') \<noteq> [] \<longrightarrow>
             (\<exists>v. map_of (engineer_slots st') e = Some v
                \<and> end_plus_buffer b (last (engineer_suggestions e (suggestions st'))) \<le> v))" for e
  proof (cases "e = engineer")
    case True
    let ?xs = "engineer_suggestions e (suggestions st)"
    have es: "engineer_suggestions e (suggestions st') = ?xs @ [g]"
      by (simp add: sg engineer_suggestions_snoc rec True)
    from inv have c: "chained b ?xs"
      and l: "?xs \<noteq> [] \<Longrightarrow> \<exists>v. map_of (engineer_slots st) e = Some v
                \<and> end_plus_buffer b (last ?xs) \<le> v"
      by (auto simp: inv_chain_def)
    have "end_plus_buffer b (last ?xs) \<le> sg_optimized_start g" if "?xs \<noteq> []"
    proof -
      from l[OF that] obtain v where v: "map_of (engineer_slots st) e = Some v"
        and le: "end_plus_buffer b (last ?xs) \<le> v" by blast
      from keep[OF v] free True have "v = free" by simp
      with le start show ?thesis by simp
    qed
    with c have "chained b (?xs @ [g])" by (simp add: chained_snoc)
    moreover have "map_of (engineer_slots st') e = Some (end_plus_buffer b g)"
      by (simp add: sl map_of_slot_set True)
    ultimately show ?thesis by (simp add: es)
  next
    case False
    have es: "engineer_suggestions e (suggestions st') = engineer_suggestions e (suggestions st)"
      using False by (simp add: sg engineer_suggestions_snoc rec)
    have "map_of (engineer_slots st') e = map_of slots1 e"
      using False by (simp add: sl map_of_slot_set)
    with inv keep show ?thesis
      unfolding es inv_chain_def by metis
  qed
  then show ?thesis by (simp add: inv_chain_def)
qed

lemma step_inv_sorted:
  assumes step: "schedule_step cls day_start day_end b st a = Inr st'"
    and inv: "inv_sorted b st"
    and nonneg: "0 \<le> a_duration_minutes a + b"
  shows "inv_sorted b st'"
proof -
  from step obtain engineer slots1 free g where
    keep0: "\<forall>e v. map_of (engineer_slots st) e = Some v \<longrightarrow> map_of slots1 e = Some v"
    and free: "map_of slots1 engineer = Some free"
    and rec: "sg_recommended_engineer g = engineer"
    and start: "sg_optimized_start g = max (a_start_time a) free"
    and fin: "sg_optimized_end g = sg_optimized_start g + a_duration_minutes a * us_per_minute"
    and cur: "sg_current_start g = a_start_time a"
    and sl: "engineer_slots st' = slot_set slots1 engineer (end_plus_buffer b g)"
    and sg: "suggestions st' = suggestions st @ [g]"
    by (rule schedule_step_Inr)
  note keep = keep0[rule_format]
  have "0 \<le> (a_duration_minutes a + b) * us_per_minute"
    using nonneg by (simp add: us_per_minute_def)
  then have ge: "free \<le> end_plus_buffer b g"
    using start fin by (simp add: end_plus_buffer_def algebra_simps)
  have "sorted (map (end_plus_buffer b) (engineer_suggestions e (suggestions st')))
        \<and> (\<forall>x\<in>set (engineer_suggestions e (suggestions st')).
             \<exists>v. map_of (engineer_slots st') e = Some v \<and> end_plus_buffer b x \<le> v)" for e
  proof (cases "e = engineer")
    case True
    let ?xs = "engineer_suggestions e (suggestions st)"
    have es: "engineer_suggestions e (suggestions st') = ?xs @ [g]"
      by (simp add: sg engineer_suggestions_snoc rec True)
    from inv have c: "sorted (map (end_plus_buffer b) ?xs)"
      and l: "\<And>x. x \<in> set ?xs \<Longrightarrow> \<exists>v. map_of (engineer_slots st) e = Some v
                \<and> end_plus_buffer b x \<le> v"
      by (auto simp: inv_sorted_def)
    have below: "end_plus_buffer b x \<le> end_plus_buffer b g" if "x \<in> set ?xs" for x
    proof -
      from l[OF that] obtain v where v: "map_of (engineer_slots st) e = Some v"
        and le: "end_plus_buffer b x \<le> v" by blast
      from keep[OF v] free True have "v = free" by simp
      with le ge show ?thesis by simp
    qed
    with c have "sorted (map (end_plus_buffer b) (?xs @ [g]))"
      by (auto simp: sorted_append)
    moreover have "map_of (engineer_slots st') e = Some (end_plus_buffer b g)"
      by (simp add: sl map_of_slot_set True)
    ultimately show ?thesis using below by (auto simp: es)
  next
    case False
    have es: "engineer_suggestions e (suggestions st') = engineer_suggestions e (suggestions st)"
      using False by (simp add: sg engineer_suggestions_snoc rec)
    have "map_of (engineer_slots st') e = map_of slots1 e"
      using False by (simp add: sl map_of_slot_set)
    with inv keep show ?thesis
      unfolding es inv_sorted_def by metis
  qed
  then show ?thesis by (simp add: inv_sorted_def)
qed

lemma loop_inv_chain:
  "schedule_loop cls day_start day_end b st todo = Inr st' \<Longrightarrow> inv_chain b st
     \<Longrightarrow> inv_chain b st'"
proof (induction todo arbitrary: st)
  case Nil
  then show ?case by simp
next
  case (Cons a todo)
  then show ?case
    by (auto split: sum.splits dest: step_inv_chain)
qed

lemma loop_inv_sorted:
  "schedule_loop cls day_start day_end b st todo = Inr st' \<Longrightarrow> inv_sorted b st
     \<Longrightarrow> \<forall>a\<in>set todo. 0 \<le> a_duration_minutes a + b \<Longrightarrow> inv_sorted b st'"
proof (induction todo arbitrary: st)
  case Nil
  then show ?case by simp
next
  case (Cons a todo)
  then show ?case
    by (auto split: sum.splits dest: step_inv_sorted)
qed

lemma optimise_schedule_Inr:
  assumes "optimise_schedule P now s data = Inr plan"
  shows "\<exists>ds t b w day_end engineers st.
    data ''date'' = Some (Scalar (JStr ds)) \<and> fromisoformat P ds = Some t
    \<and> int_field P data ''travel_buffer_minutes'' 30 = Inr b
    \<and> int_field P data ''workday_minutes'' (8 * 60) = Inr w
    \<and> add_minutes (at_nine (date_of t)) w = Inr day_end
    \<and> schedule_loop (clients s) (at_nine (date_of t)) day_end b
         \<lparr>engineer_slots = fold (\<lambda>engineer sl. slot_set sl (py_str engineer) (at_nine (date_of t)))
                             engineers [],
          reassigned = 0, suggestions = []\<rparr>
         (day_appointments s (date_of t)) = Inr st
    \<and> p_date plan = date_of t
    \<and> p_suggestions plan = suggestions st
    \<and> p_appointments_considered plan = length (day_appointments s (date_of t))"
proof -
  from assms obtain ds where d: "data ''date'' = Some (Scalar (JStr ds))"
    unfolding optimise_schedule_def
    by (auto split: option.splits jfield.splits jval.splits)
  from assms d obtain t where t: "fromisoformat P ds = Some t"
    unfolding optimise_schedule_def by (auto split: option.splits)
  from assms d t obtain b where b: "int_field P data ''travel_buffer_minutes'' 30 = Inr b"
    unfolding optimise_schedule_def Let_def by (auto split: sum.splits)
  from assms d t b obtain w where w: "int_field P data ''workday_minutes'' 480 = Inr w"
    unfolding optimise_schedule_def Let_def by (auto split: sum.splits)
  from assms d t b w obtain day_end where e: "add_minutes (at_nine (date_of t)) w = Inr day_end"
    unfolding optimise_schedule_def Let_def by (auto split: sum.splits)
  from assms d t b w e obtain engineers where
    i: "iterate (case data ''engineers'' of None \<Rightarrow> Array []
                 | Some v \<Rightarrow> if truthy_field v then v else Array []) = Inr engineers"
    unfolding optimise_schedule_def Let_def by (auto split: sum.splits)
  from assms d t b w e i obtain st where
    "schedule_loop (clients s) (at_nine (date_of t)) day_end b
         \<lparr>engineer_slots = fold (\<lambda>engineer sl. slot_set sl (py_str engineer) (at_nine (date_of t)))
                             engineers [],
          reassigned = 0, suggestions = []\<rparr>
         (day_appointments s (date_of t)) = Inr st"
    and "p_date plan = date_of t" and "p_suggestions plan = suggestions st"
    and "p_appointments_considered plan = length (day_appointments s (date_of t))"
    unfolding optimise_schedule_def Let_def by (auto split: sum.splits)
  with d t b w e show ?thesis by auto
qed

text \<open>
  Claim C5 (as amended). In every successful run and for every engineer, each
  suggested start is at least that engineer's previous suggested end plus the travel
  buffer; and when duration plus travel buffer is non-negative for every visit of the
  day, the suggested ends plus the buffer form a non-decreasing sequence.
\<close>

theorem optimiser_monotone:
  assumes run: "optimise_schedule P now s data = Inr plan"
    and buf: "int_field P data ''travel_buffer_minutes'' 30 = Inr b"
  shows "chained b (engineer_suggestions e (p_suggestions plan))
         \<and> ((\<forall>a\<in>set (day_appointments s (p_date plan)). 0 \<le> a_duration_minutes a + b)
              \<longrightarrow> sorted (ends_with_buffer b e (p_suggestions plan)))"
proof -
  from optimise_schedule_Inr[OF run] buf obtain t day_end engineers st where
    loop: "schedule_loop (clients s) (at_nine (date_of t)) day_end b
         \<lparr>engineer_slots = fold (\<lambda>engineer sl. slot_set sl (py_str engineer) (at_nine (date_of t)))
                             engineers [],
          reassigned = 0, suggestions = []\<rparr>
         (day_appointments s (date_of t)) = Inr st"
    and d: "p_date plan = date_of t" and sg: "p_suggestions plan = suggestions st"
    by auto
  let ?st0 = "\<lparr>engineer_slots = fold (\<lambda>engineer sl. slot_set sl (py_str engineer) (at_nine (date_of t)))
                             engineers [],
          reassigned = 0, suggestions = []\<rparr>"
  have "inv_chain b ?st0"
    by (simp add: inv_chain_def engineer_suggestions_def)
  with loop have "inv_chain b st" by (rule loop_inv_chain)
  then have c: "chained b (engineer_suggestions e (p_suggestions plan))"
    by (simp add: inv_chain_def sg)
  have "sorted (ends_with_buffer b e (p_suggestions plan))"
    if nn: "\<forall>a\<in>set (day_appointments s (p_date plan)). 0 \<le> a_duration_minutes a + b"
  proof -
    have "inv_sorted b ?st0"
      by (simp add: inv_sorted_def engineer_suggestions_def)
    with loop have "inv_sorted b st" using nn unfolding d by (rule loop_inv_sorted)
    then show ?thesis by (simp add: inv_sorted_def sg ends_with_buffer_def)
  qed
  with c show ?thesis by blast
qed


lemmas optimiser_defs = optimise_schedule_def schedule_step_def pick_engineer_def
  day_appointments_def int_field_def add_minutes_def timedelta_minutes_def dt_add_def
  date_of_def at_nine_def us_per_day_def us_per_minute_def demo_lib_def demo_store_def
  alice_store_def alice_data_def cx_store_def cx_data_def Let_def
  engineer_suggestions_def ends_with_buffer_def end_plus_buffer_def plan_suggestions_def


text \<open>
  With a travel buffer of -120 minutes, which the handler accepts, two visits of one
  engineer at 09:00 (60 minutes) and 09:10 (30 minutes) end at 10:00 and 09:40: the ends
  decrease, with or without the buffer added.
\<close>

theorem optimiser_monotone_counterexample:
  "ends_with_buffer (- 120) ''Alice''
     (plan_suggestions (optimise_schedule demo_lib 0 cx_store cx_data))
   = [739007 * us_per_day + 480 * us_per_minute, 739007 * us_per_day + 460 * us_per_minute]
   \<and> \<not> sorted [739007 * us_per_day + 480 * us_per_minute,
                 739007 * us_per_day + 460 * us_per_minute]"
  by (simp add: optimiser_defs)

lemma add_minutes_same_day:
  assumes "1 \<le> d" "d \<le> 3652059" "0 \<le> x" "0 \<le> m" "x + m * 60000000 < 86400000000"
  shows "add_minutes (d * 86400000000 + x) m = Inr (d * 86400000000 + x + m * 60000000)"
proof -
  have "(d * 86400000000 + (x + m * 60000000)) div 86400000000 = d"
    using assms by (simp add: div_pos_pos_trivial)
  then have "(d * 86400000000 + x + m * 60000000) div 86400000000 = d"
    by (simp add: add.assoc)
  with assms show ?thesis
    by (simp add: add_minutes_def timedelta_minutes_def dt_add_def date_of_def us_per_day_def
        us_per_minute_def Let_def)
qed


theorem optimiser_monotone_witness:
  "(\<exists>plan. optimise_schedule demo_lib 0 alice_store alice_data = Inr plan
      \<and> int_field demo_lib alice_data ''travel_buffer_minutes'' 30 = Inr 30
      \<and> length (engineer_suggestions ''Alice'' (p_suggestions plan)) = 2
      \<and> chained 30 (engineer_suggestions ''Alice'' (p_suggestions plan))
      \<and> sorted (ends_with_buffer 30 ''Alice'' (p_suggestions plan)))"
proof -
  have "\<exists>plan. optimise_schedule demo_lib 0 alice_store alice_data = Inr plan
      \<and> length (engineer_suggestions ''Alice'' (p_suggestions plan)) = 2
      \<and> list_all (\<lambda>a. 0 \<le> a_duration_minutes a + 30) (day_appointments alice_store (p_date plan))"
    by (simp add: optimiser_defs)
  then obtain plan where
    run: "optimise_schedule demo_lib 0 alice_store alice_data = Inr plan"
    and len: "length (engineer_suggestions ''Alice'' (p_suggestions plan)) = 2"
    and nn: "\<forall>a\<in>set (day_appointments alice_store (p_date plan)). 0 \<le> a_duration_minutes a + 30"
    by (auto simp: list_all_iff)
  have buf: "int_field demo_lib alice_data ''travel_buffer_minutes'' 30 = Inr 30"
    by (simp add: int_field_def alice_data_def)
  from optimiser_monotone[OF run buf, of "''Alice''"] nn run len buf show ?thesis
    by blast
qed

text \<open>
  Claim C4. On a date \<open>D\<close> with engineers \<^verbatim>\<open>["Alice"]\<close>, a travel buffer of 30
  minutes and the default workday, when the scheduled visits of the day are two visits of
  Alice at 09:00 and 09:15 of 60 minutes each, the run succeeds and the second suggestion
  starts at 10:30 on \<open>D\<close>.
\<close>

theorem optimise_two_overlapping:
  assumes date: "data ''date'' = Some (Scalar (JStr ds))" "fromisoformat P ds = Some t"
    and range: "1 \<le> date_of t" "date_of t \<le> 3652059"
    and buf: "int_field P data ''travel_buffer_minutes'' 30 = Inr 30"
    and wd: "data ''workday_minutes'' = None"
    and eng: "data ''engineers'' = Some (Array [JStr ''Alice''])"
    and two: "day_appointments s (date_of t) = [a1, a2]"
    and a1: "a_start_time a1 = at_nine (date_of t)" "a_duration_minutes a1 = 60"
      "a_assigned_to a1 = Some ''Alice''"
    and a2: "a_start_time a2 = at_nine (date_of t) + 15 * us_per_minute"
      "a_duration_minutes a2 = 60" "a_assigned_to a2 = Some ''Alice''"
  shows "\<exists>plan. optimise_schedule P now s data = Inr plan
           \<and> length (p_suggestions plan) = 2
           \<and> sg_appointment_id (p_suggestions plan ! 1) = a_id a2
           \<and> sg_optimized_start (p_suggestions plan ! 1)
               = date_of t * us_per_day + (10 * 60 + 30) * us_per_minute"
proof -
  define d where "d = date_of t"
  note r = range[folded d_def]
  have e1: "add_minutes (d * 86400000000 + 32400000000) 480
      = Inr (d * 86400000000 + 61200000000)"
    using add_minutes_same_day[OF r, of 32400000000 480] by simp
  have e2: "add_minutes (d * 86400000000 + 32400000000) 60
      = Inr (d * 86400000000 + 36000000000)"
    using add_minutes_same_day[OF r, of 32400000000 60] by simp
  have e3: "add_minutes (d * 86400000000 + 36000000000) 30
      = Inr (d * 86400000000 + 37800000000)"
    using add_minutes_same_day[OF r, of 36000000000 30] by simp
  have e4: "add_minutes (d * 86400000000 + 37800000000) 60
      = Inr (d * 86400000000 + 41400000000)"
    using add_minutes_same_day[OF r, of 37800000000 60] by simp
  have e5: "add_minutes (d * 86400000000 + 41400000000) 30
      = Inr (d * 86400000000 + 43200000000)"
    using add_minutes_same_day[OF r, of 41400000000 30] by simp
  have wd': "int_field P data ''workday_minutes'' 480 = Inr 480"
    by (simp add: int_field_def wd)
  show ?thesis
    unfolding optimise_schedule_def
    by (simp add: date buf wd' eng two[folded d_def] a1[folded d_def] a2[folded d_def]
        d_def[symmetric] at_nine_def us_per_day_def us_per_minute_def Let_def
        schedule_step_def pick_engineer_def e1 e2 e3 e4 e5)
qed

theorem optimise_two_overlapping_witness:
  "day_appointments alice_store 739007 =
     [\<lparr>a_id = 1, a_client_id = 5, a_start_time = at_nine 739007, a_duration_minutes = 60,
       a_status = ''scheduled'', a_assigned_to = Some ''Alice''\<rparr>,
      \<lparr>a_id = 2, a_client_id = 5, a_start_time = at_nine 739007 + 15 * us_per_minute,
       a_duration_minutes = 60, a_status = ''scheduled'', a_assigned_to = Some ''Alice''\<rparr>]
   \<and> (\<exists>plan. optimise_schedule demo_lib 0 alice_store alice_data = Inr plan
          \<and> length (p_suggestions plan) = 2
          \<and> sg_appointment_id (p_suggestions plan ! 1) = 2
          \<and> sg_optimized_start (p_suggestions plan ! 1)
               = 739007 * us_per_day + (10 * 60 + 30) * us_per_minute)"
proof -
  let ?a1 = "\<lparr>a_id = 1, a_client_id = 5, a_start_time = at_nine 739007, a_duration_minutes = 60,
       a_status = ''scheduled'', a_assigned_to = Some ''Alice''\<rparr>"
  let ?a2 = "\<lparr>a_id = 2, a_client_id = 5, a_start_time = at_nine 739007 + 15 * us_per_minute,
       a_duration_minutes = 60, a_status = ''scheduled'', a_assigned_to = Some ''Alice''\<rparr>"
  have t: "date_of (739007 * us_per_day) = 739007"
    by (simp add: date_of_def us_per_day_def)
  have h: "alice_data ''date'' = Some (Scalar (JStr ''2024-05-01''))"
    "fromisoformat demo_lib ''2024-05-01'' = Some (739007 * us_per_day)"
    "1 \<le> date_of (739007 * us_per_day)" "date_of (739007 * us_per_day) \<le> 3652059"
    "int_field demo_lib alice_data ''travel_buffer_minutes'' 30 = Inr 30"
    "alice_data ''workday_minutes'' = None"
    "alice_data ''engineers'' = Some (Array [JStr ''Alice''])"
    by (simp_all add: t alice_data_def demo_lib_def int_field_def)
  have two: "day_appointments alice_store (date_of (739007 * us_per_day)) = [?a1, ?a2]"
    unfolding t by (simp add: day_appointments_def alice_store_def at_nine_def us_per_day_def
        us_per_minute_def)
  have f: "a_start_time ?a1 = at_nine (date_of (739007 * us_per_day))"
    "a_duration_minutes ?a1 = 60" "a_assigned_to ?a1 = Some ''Alice''"
    "a_start_time ?a2 = at_nine (date_of (739007 * us_per_day)) + 15 * us_per_minute"
    "a_duration_minutes ?a2 = 60" "a_assigned_to ?a2 = Some ''Alice''"
    by (simp_all add: t)
  from optimise_two_overlapping[OF h two f, of 0] two show ?thesis
    by (simp add: t)
qed










lemma step_length:
  "schedule_step cls day_start day_end b st a = Inr st'
     \<Longrightarrow> length (suggestions st') = Suc (length (suggestions st))"
  by (erule schedule_step_Inr) simp

lemma loop_length:
  "schedule_loop cls day_start day_end b st todo = Inr st'
     \<Longrightarrow> length (suggestions st') = length (suggestions st) + length todo"
proof (induction todo arbitrary: st)
  case Nil
  then show ?case by simp
next
  case (Cons a todo)
  then show ?case
    by (auto split: sum.splits dest!: step_length)
qed














text \<open>
  A number under \<^verbatim>\<open>engineers\<close> is true and cannot be iterated over: the request ends
  in a \<^verbatim>\<open>TypeError\<close> that no handler catches.
\<close>

lemma optimise_schedule_engineers_number:
  "optimise_schedule demo_lib 0 cx_store (cx_data(''engineers'' \<mapsto> Scalar (JInt 5)))
     = Inl (Uncaught TypeError)"
  by (simp add: optimise_schedule_def int_field_def add_minutes_def timedelta_minutes_def
      dt_add_def date_of_def at_nine_def us_per_day_def us_per_minute_def demo_lib_def
      cx_data_def Let_def)








section \<open>Properties of rounding\<close>

lemma round_half_even_eqI:
  assumes "of_int n - 1 / 2 < x" and "x < of_int n + 1 / 2"
  shows "round_half_even x = n"
proof (cases "of_int n \<le> x")
  case True
  then have "\<lfloor>x\<rfloor> = n" using assms(2) by (simp add: floor_eq_iff)
  then show ?thesis
    using assms(2) by (simp add: round_half_even_def Let_def)
next
  case False
  then have "\<lfloor>x\<rfloor> = n - 1" using assms(1) by (simp add: floor_eq_iff)
  then show ?thesis
    using assms(1) by (simp add: round_half_even_def Let_def)
qed

lemma round_half_even_ge: "of_int k \<le> x \<Longrightarrow> k \<le> round_half_even x"
proof -
  assume "of_int k \<le> x"
  then have "k \<le> \<lfloor>x\<rfloor>" by (simp add: le_floor_iff)
  then show ?thesis by (simp add: round_half_even_def Let_def)
qed

lemma round_half_even_le: "x \<le> of_int k \<Longrightarrow> round_half_even x \<le> k"
proof -
  assume a: "x \<le> of_int k"
  show ?thesis
  proof (cases "x = of_int k")
    case True
    then show ?thesis by (simp add: round_half_even_def Let_def)
  next
    case False
    with a have "x < of_int k" by simp
    then have "\<lfloor>x\<rfloor> < k" by (simp add: floor_less_iff)
    then show ?thesis by (simp add: round_half_even_def Let_def)
  qed
qed

lemma round_pos_nonneg: "0 \<le> round_pos x"
proof (induction x rule: round_pos.induct)
  case (1 x)
  show ?case
  proof (cases "x \<le> 0")
    case True
    then show ?thesis by (simp add: round_pos.simps)
  next
    case pos: False
    show ?thesis
    proof (cases "9007199254740992 \<le> x")
      case True
      with pos "1.IH"(1) show ?thesis by (subst round_pos.simps) simp
    next
      case nb: False
      show ?thesis
      proof (cases "x < 4503599627370496")
        case True
        with pos nb "1.IH"(2) show ?thesis by (subst round_pos.simps) simp
      next
        case False
        then have "(0::int) \<le> round_half_even x"
          by (intro round_half_even_ge) simp
        with pos nb False show ?thesis by (subst round_pos.simps) simp
      qed
    qed
  qed
qed


lemma representable_double: "representable d \<Longrightarrow> representable (2 * d)"
proof -
  assume "representable d"
  then obtain m k where m: "\<bar>m\<bar> < 9007199254740992"
    and d: "d = of_int m * 2 ^ k \<or> d = of_int m / 2 ^ k"
    by (auto simp: representable_def)
  from d show ?thesis
  proof
    assume "d = of_int m * 2 ^ k"
    then have "2 * d = of_int m * 2 ^ Suc k" by simp
    with m show ?thesis unfolding representable_def by blast
  next
    assume e: "d = of_int m / 2 ^ k"
    show ?thesis
    proof (cases k)
      case 0
      with e have "2 * d = of_int m * 2 ^ Suc 0" by simp
      with m show ?thesis unfolding representable_def by blast
    next
      case (Suc j)
      with e have "2 * d = of_int m / 2 ^ j" by simp
      with m show ?thesis unfolding representable_def by blast
    qed
  qed
qed

lemma representable_half: "representable d \<Longrightarrow> representable (d / 2)"
proof -
  assume "representable d"
  then obtain m k where m: "\<bar>m\<bar> < 9007199254740992"
    and d: "d = of_int m * 2 ^ k \<or> d = of_int m / 2 ^ k"
    by (auto simp: representable_def)
  from d show ?thesis
  proof
    assume e: "d = of_int m * 2 ^ k"
    show ?thesis
    proof (cases k)
      case 0
      with e have "d / 2 = of_int m / 2 ^ Suc 0" by simp
      with m show ?thesis unfolding representable_def by blast
    next
      case (Suc j)
      with e have "d / 2 = of_int m * 2 ^ j" by simp
      with m show ?thesis unfolding representable_def by blast
    qed
  next
    assume "d = of_int m / 2 ^ k"
    then have "d / 2 = of_int m / 2 ^ Suc k" by simp
    with m show ?thesis unfolding representable_def by blast
  qed
qed

lemma representable_below_integer:
  assumes "representable d" and "4503599627370496 < d"
  shows "\<exists>j. d = of_int j"
proof -
  from assms(1) obtain m k where m: "\<bar>m\<bar> < 9007199254740992"
    and d: "d = of_int m * 2 ^ k \<or> d = of_int m / 2 ^ k"
    by (auto simp: representable_def)
  from d show ?thesis
  proof
    assume "d = of_int m * 2 ^ k"
    then have "d = of_int (m * 2 ^ k)" by simp
    then show ?thesis by blast
  next
    assume e: "d = of_int m / 2 ^ k"
    show ?thesis
    proof (cases k)
      case 0
      with e show ?thesis by auto
    next
      case (Suc j)
      have "(2::rat) \<le> 2 ^ Suc j" by simp
      have "m < 9007199254740992" using m by simp
      then have mr: "(of_int m :: rat) < of_int 9007199254740992"
        by (simp only: of_int_less_iff)
      have "0 < d" using assms(2) by simp
      then have pos: "(0::rat) < of_int m"
        unfolding e by (simp add: zero_less_divide_iff)
      have "d \<le> of_int m / 2"
        unfolding e Suc using pos by (intro divide_left_mono) simp_all
      with mr assms(2) show ?thesis by simp
    qed
  qed
qed


lemma round_pos_ge:
  "representable d \<Longrightarrow> d \<le> x \<Longrightarrow> d \<le> round_pos x"
proof (induction x arbitrary: d rule: round_pos.induct)
  case (1 x)
  show ?case
  proof (cases "d \<le> 0")
    case True
    with round_pos_nonneg[of x] show ?thesis by simp
  next
    case dpos: False
    with "1.prems"(2) have pos: "\<not> x \<le> 0" by simp
    show ?thesis
    proof (cases "9007199254740992 \<le> x")
      case True
      have "d / 2 \<le> round_pos (x / 2)"
        using pos True "1.prems" by (intro "1.IH"(1) representable_half) simp_all
      with pos True show ?thesis by (subst round_pos.simps) simp
    next
      case nb: False
      show ?thesis
      proof (cases "x < 4503599627370496")
        case True
        have "2 * d \<le> round_pos (2 * x)"
          using pos nb True "1.prems" by (intro "1.IH"(2) representable_double) simp_all
        with pos nb True show ?thesis by (subst round_pos.simps) simp
      next
        case False
        have r: "round_pos x = of_int (round_half_even x)"
          using pos nb False by (subst round_pos.simps) simp
        have lo: "(4503599627370496::int) \<le> round_half_even x"
          using False by (intro round_half_even_ge) simp
        show ?thesis
        proof (cases "4503599627370496 < d")
          case True
          with "1.prems"(1) obtain j where j: "d = of_int j"
            using representable_below_integer by blast
          with "1.prems"(2) have "j \<le> round_half_even x"
            by (intro round_half_even_ge) simp
          then show ?thesis unfolding r j by (simp only: of_int_le_iff)
        next
          case False
          then have "d \<le> of_int 4503599627370496" by simp
          also have "\<dots> \<le> of_int (round_half_even x)"
            using lo by (simp only: of_int_le_iff)
          finally show ?thesis unfolding r .
        qed
      qed
    qed
  qed
qed

lemma fl_ge: "representable d \<Longrightarrow> 0 \<le> d \<Longrightarrow> d \<le> x \<Longrightarrow> d \<le> fl x"
  by (simp add: fl_def round_pos_ge)

lemma fl_nonneg: "0 \<le> x \<Longrightarrow> 0 \<le> fl x"
  by (simp add: fl_def round_pos_nonneg)

lemma round_pos_double: "0 < x \<Longrightarrow> round_pos (2 * x) = 2 * round_pos x"
proof -
  assume pos: "0 < x"
  show ?thesis
  proof (cases "x < 4503599627370496")
    case True
    with pos show ?thesis by (subst (2) round_pos.simps) simp
  next
    case False
    with pos show ?thesis by (subst round_pos.simps) simp
  qed
qed

lemma round_pos_scale: "0 < x \<Longrightarrow> round_pos (x * 2 ^ k) = round_pos x * 2 ^ k"
proof (induction k)
  case 0
  then show ?case by simp
next
  case (Suc k)
  have "round_pos (x * 2 ^ Suc k) = round_pos (2 * (x * 2 ^ k))"
    by (simp add: mult.commute mult.left_commute)
  also have "\<dots> = 2 * round_pos (x * 2 ^ k)"
    using Suc.prems by (intro round_pos_double) simp
  finally show ?case using Suc by simp
qed

lemma fl_small:
  assumes "of_int n - 1 / 2 < x * 2 ^ k" and "x * 2 ^ k < of_int n + 1 / 2"
    and "4503599627370496 \<le> x * 2 ^ k" and "x * 2 ^ k < 9007199254740992"
  shows "fl x = of_int n / 2 ^ k"
proof -
  have "0 < x * 2 ^ k" using assms(3) by linarith
  then have pos: "0 < x" by (simp add: zero_less_mult_iff)
  have "round_pos (x * 2 ^ k) = of_int (round_half_even (x * 2 ^ k))"
    using assms(3,4) by (subst round_pos.simps) simp
  also have "round_half_even (x * 2 ^ k) = n"
    using assms(1,2) by (rule round_half_even_eqI)
  finally have "round_pos x * 2 ^ k = of_int n"
    using round_pos_scale[OF pos, of k] by simp
  then have "round_pos x = of_int n / 2 ^ k"
    by (simp add: field_simps)
  with pos show ?thesis by (simp add: fl_def)
qed

section \<open>Properties of the churn scorer\<close>

lemma round_half_even_tie_up:
  assumes "x = of_int n - 1 / 2" and "even n"
  shows "round_half_even x = n"
proof -
  have "\<lfloor>x\<rfloor> = n - 1" unfolding assms(1) by (simp add: floor_eq_iff)
  moreover have "x - of_int (n - 1) = 1 / 2" unfolding assms(1) by simp
  ultimately show ?thesis
    using assms(2) by (simp add: round_half_even_def Let_def)
qed

lemma fl_small_tie_up:
  assumes "x * 2 ^ k = of_int n - 1 / 2" and "even n"
    and "4503599627370496 \<le> x * 2 ^ k" and "x * 2 ^ k < 9007199254740992"
  shows "fl x = of_int n / 2 ^ k"
proof -
  have "0 < x * 2 ^ k" using assms(3) by linarith
  then have pos: "0 < x" by (simp add: zero_less_mult_iff)
  have "round_pos (x * 2 ^ k) = of_int (round_half_even (x * 2 ^ k))"
    using assms(3,4) by (subst round_pos.simps) simp
  also have "round_half_even (x * 2 ^ k) = n"
    using assms(1,2) by (rule round_half_even_tie_up)
  finally have "round_pos x * 2 ^ k = of_int n"
    using round_pos_scale[OF pos, of k] by simp
  then have "round_pos x = of_int n / 2 ^ k"
    by (simp add: field_simps)
  with pos show ?thesis by (simp add: fl_def)
qed

lemma round_half_even_tie_down:
  assumes "x = of_int n + 1 / 2" and "even n"
  shows "round_half_even x = n"
proof -
  have "\<lfloor>x\<rfloor> = n" unfolding assms(1) by (simp add: floor_eq_iff)
  moreover have "x - of_int n = 1 / 2" unfolding assms(1) by simp
  ultimately show ?thesis
    using assms(2) by (simp add: round_half_even_def Let_def)
qed

lemma fl_small_tie_down:
  assumes "x * 2 ^ k = of_int n + 1 / 2" and "even n"
    and "4503599627370496 \<le> x * 2 ^ k" and "x * 2 ^ k < 9007199254740992"
  shows "fl x = of_int n / 2 ^ k"
proof -
  have "0 < x * 2 ^ k" using assms(3) by linarith
  then have pos: "0 < x" by (simp add: zero_less_mult_iff)
  have "round_pos (x * 2 ^ k) = of_int (round_half_even (x * 2 ^ k))"
    using assms(3,4) by (subst round_pos.simps) simp
  also have "round_half_even (x * 2 ^ k) = n"
    using assms(1,2) by (rule round_half_even_tie_down)
  finally have "round_pos x * 2 ^ k = of_int n"
    using round_pos_scale[OF pos, of k] by simp
  then have "round_pos x = of_int n / 2 ^ k"
    by (simp add: field_simps)
  with pos show ?thesis by (simp add: fl_def)
qed

lemma lit_1_20: "lit (1 / 20) = 7205759403792794 / 2 ^ 57"
  using fl_small[of 7205759403792794 "1 / 20" 57] by (simp add: lit_def)

lemma lit_19_20: "lit (19 / 20) = 8556839292003942 / 2 ^ 53"
  using fl_small[of 8556839292003942 "19 / 20" 53] by (simp add: lit_def)

lemma representable_lit_1_20: "representable (lit (1 / 20))"
  unfolding representable_def lit_1_20
  by (rule exI[of _ 7205759403792794], rule exI[of _ 57]) simp

lemma lit_nonneg: "0 \<le> x \<Longrightarrow> 0 \<le> lit x"
  by (simp add: lit_def fl_nonneg)

lemma int_mul_float_nonneg: "0 \<le> n \<Longrightarrow> 0 \<le> x \<Longrightarrow> 0 \<le> int_mul_float n x"
  by (simp add: int_mul_float_def f_mul_def fl_nonneg)

lemma f_add_keeps_floor:
  "lit (1 / 20) \<le> p \<Longrightarrow> 0 \<le> a \<Longrightarrow> lit (1 / 20) \<le> f_add p a"
  unfolding f_add_def
  by (rule fl_ge[OF representable_lit_1_20]) (simp_all add: lit_nonneg)

text \<open>
  Claim C3. The churn probability lies between the floats \<^verbatim>\<open>0.05\<close> and \<^verbatim>\<open>0.95\<close>
  (and so between the exact numbers 0.05 and 0.95), and the level is \<^verbatim>\<open>high\<close> when
  the probability is at least the float \<^verbatim>\<open>0.6\<close>, \<^verbatim>\<open>medium\<close> when it is at least the
  float \<^verbatim>\<open>0.35\<close> and below \<^verbatim>\<open>0.6\<close>, and \<^verbatim>\<open>low\<close> otherwise. The decimal literals
  are read as the code reads them, as binary floats.
\<close>

theorem churn_probability_bounds:
  assumes "calculate_churn_risk now cl tks tsks appts = (probability, label)"
  shows "lit (1 / 20) \<le> probability \<and> probability \<le> lit (19 / 20)
         \<and> 1 / 20 \<le> probability \<and> probability \<le> 19 / 20
         \<and> label = (if lit (3 / 5) \<le> probability then ''high''
                     else if lit (7 / 20) \<le> probability then ''medium''
                     else ''low'')"
proof -
  define open_tickets where "open_tickets = int (length (filter (\<lambda>t. t_status t = ''open'') tks))"
  define high_priority where
    "high_priority = int (length (filter (\<lambda>t. t_status t = ''open'' \<and> t_priority t = ''high'') tks))"
  define overdue_tasks where
    "overdue_tasks = int (length (filter (\<lambda>k. k_status k \<noteq> ''completed''
                                      \<and> (case k_due_date k of None \<Rightarrow> False
                                          | Some d \<Rightarrow> d < date_of now)) tsks))"
  define missed_appointments where
    "missed_appointments = int (length (filter (\<lambda>a. a_status a = ''cancelled'') appts))"
  define days_since_touch where "days_since_touch = (now - c_updated_at cl) div us_per_day"
  define p1 where "p1 = f_add (lit (1 / 20))
      (min (lit (3 / 10)) (int_mul_float open_tickets (lit (1 / 20))))"
  define p2 where "p2 = f_add p1 (min (lit (3 / 10)) (int_mul_float high_priority (lit (1 / 10))))"
  define p3 where "p3 = f_add p2 (min (lit (1 / 5)) (int_mul_float overdue_tasks (lit (2 / 25))))"
  define p4 where "p4 = f_add p3 (if missed_appointments \<noteq> 0 then lit (1 / 10) else 0)"
  define p5 where "p5 = f_add p4 (if 30 < days_since_touch then lit (1 / 20) else 0)"
  have "calculate_churn_risk now cl tks tsks appts
      = (min p5 (lit (19 / 20)),
         if lit (3 / 5) \<le> min p5 (lit (19 / 20)) then ''high''
         else if lit (7 / 20) \<le> min p5 (lit (19 / 20)) then ''medium''
         else ''low'')"
    unfolding calculate_churn_risk_def Let_def p5_def p4_def p3_def p2_def p1_def
      open_tickets_def high_priority_def overdue_tasks_def missed_appointments_def
      days_since_touch_def
    by (rule refl)
  with assms have e: "(probability, label)
      = (min p5 (lit (19 / 20)),
         if lit (3 / 5) \<le> min p5 (lit (19 / 20)) then ''high''
         else if lit (7 / 20) \<le> min p5 (lit (19 / 20)) then ''medium''
         else ''low'')"
    by (simp only:)
  have pr: "probability = min p5 (lit (19 / 20))"
    using e by (rule Pair_inject)
  have lb0: "label = (if lit (3 / 5) \<le> min p5 (lit (19 / 20)) then ''high''
         else if lit (7 / 20) \<le> min p5 (lit (19 / 20)) then ''medium''
         else ''low'')"
    using e by (rule Pair_inject)
  note lb = lb0[folded pr]
  have n: "0 \<le> open_tickets" "0 \<le> high_priority" "0 \<le> overdue_tasks"
    by (simp_all add: open_tickets_def high_priority_def overdue_tasks_def)
  have "lit (1 / 20) \<le> p1"
    unfolding p1_def using n by (intro f_add_keeps_floor) (simp_all add: lit_nonneg int_mul_float_nonneg)
  then have "lit (1 / 20) \<le> p2"
    unfolding p2_def using n by (intro f_add_keeps_floor) (simp_all add: lit_nonneg int_mul_float_nonneg)
  then have "lit (1 / 20) \<le> p3"
    unfolding p3_def using n by (intro f_add_keeps_floor) (simp_all add: lit_nonneg int_mul_float_nonneg)
  then have "lit (1 / 20) \<le> p4"
    unfolding p4_def by (intro f_add_keeps_floor) (simp_all add: lit_nonneg)
  then have "lit (1 / 20) \<le> p5"
    unfolding p5_def by (intro f_add_keeps_floor) (simp_all add: lit_nonneg)
  moreover have "lit (1 / 20) \<le> lit (19 / 20)"
    by (simp add: lit_1_20 lit_19_20)
  ultimately have lo: "lit (1 / 20) \<le> probability" by (simp add: pr)
  have hi: "probability \<le> lit (19 / 20)" by (simp add: pr)
  have "(1::rat) / 20 \<le> lit (1 / 20)" by (simp add: lit_1_20)
  with lo have lo': "1 / 20 \<le> probability" by simp
  have "lit (19 / 20) \<le> (19::rat) / 20" by (simp add: lit_19_20)
  with hi have hi': "probability \<le> 19 / 20" by simp
  from lo hi lo' hi' lb show ?thesis by blast
qed


lemma fl_0: "fl 0 = 0"
  by (simp add: fl_def round_pos.simps)

lemma fl_1: "fl 1 = 1"
  using fl_small[of 4503599627370496 1 52] by simp

lemma fl_3: "fl 3 = 3"
  using fl_small[of 6755399441055744 3 51] by simp

lemma lit_1_10: "lit (1 / 10) = 7205759403792794 / 2 ^ 56"
  using fl_small[of 7205759403792794 "1 / 10" 56] by (simp add: lit_def)

lemma lit_3_10: "lit (3 / 10) = 5404319552844595 / 2 ^ 54"
  using fl_small[of 5404319552844595 "3 / 10" 54] by (simp add: lit_def)

lemma lit_1_5: "lit (1 / 5) = 7205759403792794 / 2 ^ 55"
  using fl_small[of 7205759403792794 "1 / 5" 55] by (simp add: lit_def)

lemma lit_3_5: "lit (3 / 5) = 5404319552844595 / 2 ^ 53"
  using fl_small[of 5404319552844595 "3 / 5" 53] by (simp add: lit_def)

lemma lit_7_20: "lit (7 / 20) = 6305039478318694 / 2 ^ 54"
  using fl_small[of 6305039478318694 "7 / 20" 54] by (simp add: lit_def)

lemma churn_demo:
  "calculate_churn_risk (5 * us_per_day) churn_client churn_tickets [] []
     = (5404319552844596 / 2 ^ 54, ''low'')"
proof -
  have c: "int (length (filter (\<lambda>t. t_status t = ''open'') churn_tickets)) = 3"
    "int (length (filter (\<lambda>t. t_status t = ''open'' \<and> t_priority t = ''high'') churn_tickets)) = 1"
    "(5 * us_per_day - c_updated_at churn_client) div us_per_day = 5"
    by (simp_all add: churn_tickets_def demo_ticket_def churn_client_def us_per_day_def)
  have m1: "int_mul_float 3 (lit (1 / 20)) = 5404319552844596 / 2 ^ 55"
    using fl_small_tie_up[of "3 * (7205759403792794 / 2 ^ 57)" 55 5404319552844596]
    by (simp add: int_mul_float_def f_mul_def lit_1_20 fl_3)
  have p1: "f_add (lit (1 / 20)) (min (lit (3 / 10)) (int_mul_float 3 (lit (1 / 20))))
      = 7205759403792794 / 2 ^ 55"
    unfolding m1
    using fl_small_tie_down[of "7205759403792794 / 2 ^ 57 + 5404319552844596 / 2 ^ 55" 55
        7205759403792794]
    by (simp add: lit_3_10 lit_1_20 f_add_def)
  have m2: "int_mul_float 1 (lit (1 / 10)) = 7205759403792794 / 2 ^ 56"
    using fl_small[of 7205759403792794 "7205759403792794 / 2 ^ 56" 56]
    by (simp add: int_mul_float_def f_mul_def lit_1_10 fl_1)
  have p2: "f_add (7205759403792794 / 2 ^ 55) (min (lit (3 / 10)) (int_mul_float 1 (lit (1 / 10))))
      = 5404319552844596 / 2 ^ 54"
    unfolding m2
    using fl_small_tie_up[of "7205759403792794 / 2 ^ 55 + 7205759403792794 / 2 ^ 56" 54
        5404319552844596]
    by (simp add: lit_3_10 f_add_def)
  have m3: "int_mul_float 0 (lit (2 / 25)) = 0"
    by (simp add: int_mul_float_def f_mul_def fl_0)
  have z: "f_add (5404319552844596 / 2 ^ 54) 0 = 5404319552844596 / 2 ^ 54"
    using fl_small[of 5404319552844596 "5404319552844596 / 2 ^ 54" 54]
    by (simp add: f_add_def)
  have p3: "f_add (5404319552844596 / 2 ^ 54) (min (lit (1 / 5)) (int_mul_float 0 (lit (2 / 25))))
      = 5404319552844596 / 2 ^ 54"
    unfolding m3 using z by (simp add: lit_1_5)
  have fin: "min (5404319552844596 / 2 ^ 54) (lit (19 / 20)) = 5404319552844596 / 2 ^ 54"
    "\<not> lit (3 / 5) \<le> 5404319552844596 / 2 ^ 54"
    "\<not> lit (7 / 20) \<le> 5404319552844596 / 2 ^ 54"
    by (simp_all add: lit_19_20 lit_3_5 lit_7_20)
  have n30: "((30::int) < 5) = False" by simp
  show ?thesis
    unfolding calculate_churn_risk_def Let_def c
    by (simp only: p1 p2 p3 z fin n30 list.size filter.simps if_False if_True
        of_nat_0 refl simp_thms)
qed

theorem churn_probability_bounds_witness:
  "calculate_churn_risk (5 * us_per_day) churn_client churn_tickets [] []
     = (5404319552844596 / 2 ^ 54, ''low'')
   \<and> lit (1 / 20) \<le> 5404319552844596 / 2 ^ 54 \<and> 5404319552844596 / 2 ^ 54 \<le> lit (19 / 20)
   \<and> \<not> lit (7 / 20) \<le> 5404319552844596 / 2 ^ 54"
  using churn_probability_bounds[OF churn_demo] churn_demo
  by (simp add: lit_7_20)

section \<open>Properties of the engineer-load scorer\<close>

























end
